theory Spec2Isabelle
  imports Complex_Main "HOL-Library.Product_Lexorder"
begin

section \<open>The Function assembly and evaluation engine of spii\<close>

text \<open>
  A shallow embedding of \<^verbatim>\<open>src/source/function.cpp\<close>.

  Conventions of the embedding.
  \<^item> A \<^verbatim>\<open>double*\<close> handed in by the user is an address, a natural number; the user's
    storage is a function from addresses to scalars, and \<^verbatim>\<open>p[i]\<close> is the cell \<open>p + i\<close>.
  \<^item> A \<^verbatim>\<open>double\<close> is a real number: rounding is not modelled.
  \<^item> \<^verbatim>\<open>size_t\<close>, and the \<^verbatim>\<open>int\<close>s the engine uses as dimensions, arities and loop
    counters, are natural numbers: sizes are taken to be non-negative and to fit the
    machine types.
  \<^item> A \<^verbatim>\<open>throw\<close> is an error value. The calls that change the registries return it
    beside the state the object is left in; the evaluations, which are \<^verbatim>\<open>const\<close>, return
    their results or the error, and the scratch they leave in the object is described by
    \<open>allocated\<close> and \<open>prepared\<close> below.
  \<^item> An access outside a vector, which is undefined behaviour in C++, is the error
    \<open>OutOfRange\<close>.
  \<^item> The build without OpenMP is modelled: one thread, the terms evaluated in order.
  \<^item> The timing and call counters of the interface are left out.
\<close>

subsection \<open>Errors\<close>

text \<open>
  Every failure of the source is a \<^verbatim>\<open>std::runtime_error\<close> with a message; the
  constructors name the kinds of failure.
  \<^item> \<open>DimensionMismatch\<close>: "dimension mismatch with previously added variable", "x_dimension
    can not change", "t_dimension can not change", "dimension does not match the change of
    variables", "variable dimension does not match term".
  \<^item> \<open>ArityMismatch\<close>: "incorrect number of arguments".
  \<^item> \<open>NotFound\<close>: "variable not found".
  \<^item> \<open>UnsupportedOperation\<close>: "Change of variables not supported for Hessians", "Change of
    variables not supported for sparse Hessian", "Change of variables not allowed".
  \<^item> \<open>HessianDisabled\<close>: "Hessian computation is not enabled".
  \<^item> \<open>FormatMismatch\<close>: "Not a function stream", "Not enough variables in stream".
  \<^item> \<open>IncompatibleBuild\<close>: "Type format does not match".
  \<^item> \<open>ReadFailed\<close>: "Reading ... failed", and a factory that cannot make the term.
  \<^item> \<open>AssertionFailed\<close>: a failed \<^verbatim>\<open>spii_assert\<close>.
  \<^item> \<open>OutOfRange\<close>: \<^verbatim>\<open>std::out_of_range\<close> of \<^verbatim>\<open>at\<close>, and every access outside a vector.
\<close>

datatype error =
    DimensionMismatch
  | ArityMismatch
  | NotFound
  | UnsupportedOperation
  | HessianDisabled
  | FormatMismatch
  | IncompatibleBuild
  | ReadFailed
  | AssertionFailed
  | OutOfRange

subsection \<open>The collaborators: intervals, transforms, terms\<close>

type_synonym address = nat

text \<open>\<^verbatim>\<open>Interval<double>\<close>: a lower and an upper bound.\<close>

type_synonym interval = "real \<times> real"

text \<open>What a stream holds, one token for each \<^verbatim>\<open><<\<close> of the writer.\<close>

datatype token = Word string | Count nat | Scalar real

text \<open>
  \<^verbatim>\<open>ChangeOfVariables\<close>. A pointer argument is the part of the vector from that
  position on; a pointer result is the new content written there.
\<close>

record ChangeOfVariables =
  x_dimension :: nat
  t_dimension :: nat
  t_to_x :: "real list \<Rightarrow> real list"
  x_to_t :: "real list \<Rightarrow> real list"
  update_gradient :: "real list \<Rightarrow> real list \<Rightarrow> (nat \<Rightarrow> real) \<Rightarrow> real list"

text \<open>
  \<^verbatim>\<open>Term\<close>. The three overloads of \<^verbatim>\<open>evaluate\<close> take the arguments, one vector for each
  variable; the second also gives the gradient rows (row, position), the third also the
  Hessian blocks (row variable, column variable, row, column).
  \<open>type_name\<close> is \<^verbatim>\<open>TermFactory::fix_name(typeid(term).name())\<close> and \<open>write_term\<close> is what
  \<^verbatim>\<open>out << term\<close> writes.
\<close>

record Term =
  number_of_variables :: nat
  variable_dimension :: "nat \<Rightarrow> nat"
  evaluate0 :: "real list list \<Rightarrow> real"
  evaluate1 :: "real list list \<Rightarrow> real \<times> (nat \<Rightarrow> nat \<Rightarrow> real)"
  evaluate2 :: "real list list \<Rightarrow> real \<times> (nat \<Rightarrow> nat \<Rightarrow> real) \<times> (nat \<Rightarrow> nat \<Rightarrow> nat \<Rightarrow> nat \<Rightarrow> real)"
  evaluate_interval :: "interval list list \<Rightarrow> interval"
  type_name :: string
  write_term :: "token list"

subsection \<open>The registries\<close>

record AddedVariable =
  user_dimension :: nat
  solver_dimension :: nat
  user_data :: address
  global_index :: nat
  is_constant :: bool
  change_of_variables :: "ChangeOfVariables option"
  temp_space :: "real list"

text \<open>
  \<open>temp_variables\<close> holds pointers to the \<open>temp_space\<close> of variables: each is the
  registry index of the variable whose buffer it points to. The member
  \<^verbatim>\<open>std::vector<std::vector<Eigen::MatrixXd>> hessian\<close> is held in two fields:
  \<open>hessian_blocks\<close> is the grid as it is allocated, with the number of rows and of columns of
  each block (a term that was added has an empty grid), and \<open>hessian\<close> gives the
  coefficients of the blocks.
\<close>

record AddedTerm =
  the_term :: Term
  added_variables_indices :: "nat list"
  temp_variables :: "nat list"
  hessian_blocks :: "(nat \<times> nat) list list"
  hessian :: "nat \<Rightarrow> nat \<Rightarrow> nat \<Rightarrow> nat \<Rightarrow> real"

text \<open>The members of \<^verbatim>\<open>Function::Implementation\<close>, and \<open>hessian_is_enabled\<close> of its interface.\<close>

record Function =
  variables :: "AddedVariable list"
  variables_map :: "address \<rightharpoonup> nat"
  number_of_scalars :: nat
  number_of_constants :: nat
  the_constant :: real
  terms :: "AddedTerm list"
  number_of_threads :: nat
  local_storage_allocated :: bool
  thread_gradient_storage :: "real list"
  number_of_hessian_elements :: nat
  hessian_is_enabled :: bool

definition clear :: "Function \<Rightarrow> Function" where
  "clear f = f\<lparr>the_constant := 0, terms := [], variables := [], variables_map := Map.empty,
     number_of_scalars := 0, number_of_constants := 0, thread_gradient_storage := [],
     local_storage_allocated := False, number_of_hessian_elements := 0,
     number_of_threads := 1\<rparr>"

text \<open>The constructor of \<^verbatim>\<open>Function\<close>.\<close>

definition new_Function :: Function where
  "new_Function = clear \<lparr>variables = [], variables_map = Map.empty, number_of_scalars = 0,
     number_of_constants = 0, the_constant = 0, terms = [], number_of_threads = 1,
     local_storage_allocated = False, thread_gradient_storage = [],
     number_of_hessian_elements = 0, hessian_is_enabled = True\<rparr>"

text \<open>\<^verbatim>\<open>variables.emplace_back()\<close>: a value-initialised entry.\<close>

definition emplaced :: AddedVariable where
  "emplaced = \<lparr>user_dimension = 0, solver_dimension = 0, user_data = 0, global_index = 0,
     is_constant = False, change_of_variables = None, temp_space = []\<rparr>"

text \<open>The end of \<^verbatim>\<open>add_variable_internal\<close>, once the two dimensions are known.\<close>

definition register_new :: "AddedVariable \<Rightarrow> nat \<Rightarrow> nat \<Rightarrow> Function \<Rightarrow> Function" where
  "register_new var_info ud sd f =
     f\<lparr>variables := butlast (variables f) @
          [var_info\<lparr>user_dimension := ud, solver_dimension := sd,
             temp_space := replicate ud 0, global_index := number_of_scalars f\<rparr>],
       number_of_scalars := number_of_scalars f + sd\<rparr>"

definition add_variable_internal ::
  "address \<Rightarrow> nat \<Rightarrow> ChangeOfVariables option \<Rightarrow> Function \<Rightarrow> error option \<times> Function" where
  "add_variable_internal variable dimension cov f0 =
     (let f = f0\<lparr>local_storage_allocated := False\<rparr> in
      case variables_map f variable of
        Some k \<Rightarrow>
          if length (variables f) \<le> k then (Some OutOfRange, f)
          else
            let var_info = variables f ! k in
            if user_dimension var_info \<noteq> dimension then (Some DimensionMismatch, f)
            else
              let f1 = f\<lparr>variables := (variables f)[k := var_info\<lparr>change_of_variables := cov\<rparr>]\<rparr> in
              (case cov of
                 None \<Rightarrow> (None, f1)
               | Some c \<Rightarrow>
                   if user_dimension var_info \<noteq> x_dimension c then (Some DimensionMismatch, f1)
                   else if solver_dimension var_info \<noteq> t_dimension c then (Some DimensionMismatch, f1)
                   else (None, f1))
      | None \<Rightarrow>
          let var_info = emplaced\<lparr>user_data := variable, is_constant := False,
                 change_of_variables := cov\<rparr>;
              f1 = f\<lparr>variables := variables f @ [var_info],
                     variables_map := (variables_map f)(variable \<mapsto> length (variables f))\<rparr>
          in
            (case cov of
               Some c \<Rightarrow>
                 if dimension \<noteq> x_dimension c then (Some DimensionMismatch, f1)
                 else (None, register_new var_info (x_dimension c) (t_dimension c) f1)
             | None \<Rightarrow> (None, register_new var_info dimension dimension f1)))"

text \<open>\<^verbatim>\<open>Function::add_variable(double*, int)\<close>.\<close>

definition add_variable :: "address \<Rightarrow> nat \<Rightarrow> Function \<Rightarrow> error option \<times> Function" where
  "add_variable variable dimension f = add_variable_internal variable dimension None f"

text \<open>The two passes of \<^verbatim>\<open>set_constant\<close> over the registry, each with its running count.\<close>

fun index_free :: "AddedVariable list \<Rightarrow> nat \<Rightarrow> AddedVariable list \<times> nat" where
  "index_free [] n = ([], n)"
| "index_free (v # vs) n =
     (if \<not> is_constant v
      then (case index_free vs (n + solver_dimension v) of
              (vs', n') \<Rightarrow> (v\<lparr>global_index := n\<rparr> # vs', n'))
      else (case index_free vs n of (vs', n') \<Rightarrow> (v # vs', n')))"

fun index_constant :: "AddedVariable list \<Rightarrow> nat \<Rightarrow> nat \<Rightarrow> AddedVariable list \<times> nat" where
  "index_constant [] n c = ([], c)"
| "index_constant (v # vs) n c =
     (if is_constant v
      then (case index_constant vs n (c + solver_dimension v) of
              (vs', c') \<Rightarrow> (v\<lparr>global_index := n + c\<rparr> # vs', c'))
      else (case index_constant vs n c of (vs', c') \<Rightarrow> (v # vs', c')))"

definition set_constant :: "address \<Rightarrow> bool \<Rightarrow> Function \<Rightarrow> error option \<times> Function" where
  "set_constant variable flag f =
     (case variables_map f variable of
        None \<Rightarrow> (Some NotFound, f)
      | Some k \<Rightarrow>
          if length (variables f) \<le> k then (Some OutOfRange, f)
          else
            let vs0 = (variables f)[k := (variables f ! k)\<lparr>is_constant := flag\<rparr>] in
            (case index_free vs0 0 of
               (vs1, n) \<Rightarrow>
                 (case index_constant vs1 n 0 of
                    (vs2, c) \<Rightarrow>
                      (None, f\<lparr>variables := vs2, number_of_scalars := n,
                                number_of_constants := c,
                                local_storage_allocated := False\<rparr>))))"

text \<open>\<^verbatim>\<open>added_term.added_variables_indices.emplace_back(var_index)\<close>, on \<^verbatim>\<open>terms.back()\<close>.\<close>

definition push_index :: "nat \<Rightarrow> Function \<Rightarrow> Function" where
  "push_index var_index f =
     f\<lparr>terms := butlast (terms f) @
          [(last (terms f))\<lparr>added_variables_indices :=
              added_variables_indices (last (terms f)) @ [var_index]\<rparr>]\<rparr>"

text \<open>The loop of \<^verbatim>\<open>add_term\<close> over \<open>var = 0, ..., number_of_variables - 1\<close>.\<close>

fun bind_arguments ::
  "Term \<Rightarrow> address list \<Rightarrow> nat list \<Rightarrow> Function \<Rightarrow> error option \<times> Function" where
  "bind_arguments t arguments [] f = (None, f)"
| "bind_arguments t arguments (var # rest) f =
     (if length arguments \<le> var then (Some OutOfRange, f)
      else
        case variables_map f (arguments ! var) of
          None \<Rightarrow>
            (case add_variable (arguments ! var) (variable_dimension t var) f of
               (Some e, f') \<Rightarrow> (Some e, f')
             | (None, f') \<Rightarrow>
                 (case variables_map f' (arguments ! var) of
                    None \<Rightarrow> (Some OutOfRange, f')
                  | Some var_index \<Rightarrow> bind_arguments t arguments rest (push_index var_index f')))
        | Some var_index \<Rightarrow>
            if length (variables f) \<le> var_index then (Some OutOfRange, f)
            else if user_dimension (variables f ! var_index) \<noteq> variable_dimension t var
            then (Some DimensionMismatch, f)
            else bind_arguments t arguments rest (push_index var_index f))"

definition add_term :: "Term \<Rightarrow> address list \<Rightarrow> Function \<Rightarrow> error option \<times> Function" where
  "add_term t arguments f0 =
     (let f = f0\<lparr>local_storage_allocated := False\<rparr> in
      if number_of_variables t \<noteq> length arguments then (Some ArityMismatch, f)
      else
        let added_term = \<lparr>the_term = t, added_variables_indices = [], temp_variables = [],
                           hessian_blocks = [], hessian = (\<lambda>_ _ _ _. 0)\<rparr>;
            f1 = f\<lparr>terms := terms f @ [added_term]\<rparr>
        in
          case bind_arguments t arguments [0..<number_of_variables t] f1 of
            (Some e, f2) \<Rightarrow> (Some e, f2\<lparr>terms := butlast (terms f2)\<rparr>)
          | (None, f2) \<Rightarrow> (None, f2))"

subsection \<open>Loops\<close>

text \<open>
  A \<^verbatim>\<open>for\<close> loop whose body may fail: the body runs on each element in turn, on the state
  the one before left, and the first error ends the loop.
\<close>

fun for_each :: "'i list \<Rightarrow> ('i \<Rightarrow> 's \<Rightarrow> error + 's) \<Rightarrow> 's \<Rightarrow> error + 's" where
  "for_each [] body s = Inr s"
| "for_each (i # rest) body s =
     (case body i s of Inl e \<Rightarrow> Inl e | Inr s' \<Rightarrow> for_each rest body s')"

text \<open>A loop over a vector whose body may also write to the element it visits.\<close>

fun update_each ::
  "('a \<Rightarrow> 's \<Rightarrow> error + 'a \<times> 's) \<Rightarrow> 'a list \<Rightarrow> 's \<Rightarrow> error + 'a list \<times> 's" where
  "update_each body [] s = Inr ([], s)"
| "update_each body (a # rest) s =
     (case body a s of
        Inl e \<Rightarrow> Inl e
      | Inr (a', s') \<Rightarrow>
          (case update_each body rest s' of
             Inl e \<Rightarrow> Inl e
           | Inr (rest', s'') \<Rightarrow> Inr (a' # rest', s'')))"

subsection \<open>Local storage\<close>

text \<open>
  \<^verbatim>\<open>allocate_local_storage\<close>. Each term gets, for each variable it is bound to, a pointer
  to the scratch of that variable, pushed behind the pointers it already holds;
  \<^verbatim>\<open>variables[ind]\<close> must exist. The gradient accumulator of the thread gets one entry for each
  free and each constant scalar; its content, which \<^verbatim>\<open>resize\<close> leaves without a value, is
  taken as 0, and every evaluation sets it to zero before use. When \<open>hessian_is_enabled\<close> is
  set, the Hessian grid of each term is resized to one block for each pair of variables of the
  term, of the dimensions the term declares; when it is not, the grid stays as it is. The size
  of the gradient scratch is not modelled: a term returns the rows of its gradient as a
  function of the position.
\<close>

definition block_grid :: "Term \<Rightarrow> (nat \<times> nat) list list" where
  "block_grid t =
     map (\<lambda>var0. map (\<lambda>var1. (variable_dimension t var0, variable_dimension t var1))
                   [0..<number_of_variables t])
       [0..<number_of_variables t]"

fun allocate_terms :: "bool \<Rightarrow> nat \<Rightarrow> AddedTerm list \<Rightarrow> error + AddedTerm list" where
  "allocate_terms enabled nv [] = Inr []"
| "allocate_terms enabled nv (added_term # rest) =
     (if \<exists>ind\<in>set (added_variables_indices added_term). nv \<le> ind then Inl OutOfRange
      else
        let pointed = added_term\<lparr>temp_variables :=
                        temp_variables added_term @ added_variables_indices added_term\<rparr>;
            resized = (if enabled
                       then pointed\<lparr>hessian_blocks := block_grid (the_term added_term)\<rparr>
                       else pointed)
        in
          case allocate_terms enabled nv rest of
            Inl e \<Rightarrow> Inl e
          | Inr rest' \<Rightarrow> Inr (resized # rest'))"

definition allocate_local_storage :: "Function \<Rightarrow> error + Function" where
  "allocate_local_storage f =
     (case allocate_terms (hessian_is_enabled f) (length (variables f)) (terms f) of
        Inl e \<Rightarrow> Inl e
      | Inr ts \<Rightarrow>
          Inr (f\<lparr>terms := ts,
                 thread_gradient_storage :=
                   replicate (number_of_scalars f + number_of_constants f) 0,
                 local_storage_allocated := True\<rparr>))"

text \<open>\<^verbatim>\<open>if (! local_storage_allocated) allocate_local_storage();\<close>\<close>

definition ensure_allocated :: "Function \<Rightarrow> error + Function" where
  "ensure_allocated f = (if local_storage_allocated f then Inr f else allocate_local_storage f)"

subsection \<open>Copying into the scratch of the variables\<close>

definition copy_to_local ::
  "(address \<Rightarrow> real) \<Rightarrow> real list \<Rightarrow> AddedVariable \<Rightarrow> error + AddedVariable" where
  "copy_to_local mem x var =
     (if \<not> is_constant var then
        (case change_of_variables var of
           None \<Rightarrow>
             (case for_each [0..<user_dimension var]
                     (\<lambda>i ts. if length ts \<le> i \<or> length x \<le> global_index var + i
                             then Inl OutOfRange
                             else Inr (ts[i := x ! (global_index var + i)]))
                     (temp_space var) of
                Inl e \<Rightarrow> Inl e
              | Inr ts \<Rightarrow> Inr (var\<lparr>temp_space := ts\<rparr>))
         | Some c \<Rightarrow>
             if length x \<le> global_index var then Inl OutOfRange
             else Inr (var\<lparr>temp_space := t_to_x c (drop (global_index var) x)\<rparr>))
      else
        (case for_each [0..<user_dimension var]
                (\<lambda>i ts. if length ts \<le> i then Inl OutOfRange
                        else Inr (ts[i := mem (user_data var + i)]))
                (temp_space var) of
           Inl e \<Rightarrow> Inl e
         | Inr ts \<Rightarrow> Inr (var\<lparr>temp_space := ts\<rparr>)))"

definition copy_global_to_local ::
  "(address \<Rightarrow> real) \<Rightarrow> real list \<Rightarrow> Function \<Rightarrow> error + Function" where
  "copy_global_to_local mem x f =
     (case update_each (\<lambda>var u. map_sum id (\<lambda>var'. (var', u)) (copy_to_local mem x var))
             (variables f) () of
        Inl e \<Rightarrow> Inl e
      | Inr (vs, u) \<Rightarrow> Inr (f\<lparr>variables := vs\<rparr>))"

text \<open>\<^verbatim>\<open>copy_user_to_local\<close>: variables and constants alike are read from the user's storage.\<close>

definition copy_user_to_local :: "(address \<Rightarrow> real) \<Rightarrow> Function \<Rightarrow> error + Function" where
  "copy_user_to_local mem f =
     (case update_each
             (\<lambda>var u.
                case for_each [0..<user_dimension var]
                       (\<lambda>i ts. if length ts \<le> i then Inl OutOfRange
                               else Inr (ts[i := mem (user_data var + i)]))
                       (temp_space var) of
                  Inl e \<Rightarrow> Inl e
                | Inr ts \<Rightarrow> Inr (var\<lparr>temp_space := ts\<rparr>, u))
             (variables f) () of
        Inl e \<Rightarrow> Inl e
      | Inr (vs, u) \<Rightarrow> Inr (f\<lparr>variables := vs\<rparr>))"

subsection \<open>The value\<close>

text \<open>
  \<^verbatim>\<open>&terms[i].temp_variables[0]\<close>: the term reads as many pointers as it has variables, and
  through each the scratch of a variable.
\<close>

definition arguments_of :: "Function \<Rightarrow> AddedTerm \<Rightarrow> error + real list list" where
  "arguments_of f added_term =
     (let ps = take (number_of_variables (the_term added_term)) (temp_variables added_term) in
      if length ps < number_of_variables (the_term added_term)
         \<or> (\<exists>p\<in>set ps. length (variables f) \<le> p)
      then Inl OutOfRange
      else Inr (map (\<lambda>p. temp_space (variables f ! p)) ps))"

definition evaluate_from_local_storage :: "Function \<Rightarrow> error + real" where
  "evaluate_from_local_storage f =
     (if \<not> local_storage_allocated f then Inl AssertionFailed
      else
        for_each (terms f)
          (\<lambda>added_term v.
             case arguments_of f added_term of
               Inl e \<Rightarrow> Inl e
             | Inr a \<Rightarrow> Inr (v + evaluate0 (the_term added_term) a))
          (the_constant f))"

text \<open>\<^verbatim>\<open>Function::evaluate(x)\<close> and \<^verbatim>\<open>Function::evaluate()\<close>.\<close>

definition evaluate :: "Function \<Rightarrow> (address \<Rightarrow> real) \<Rightarrow> real list \<Rightarrow> error + real" where
  "evaluate f mem x =
     (case ensure_allocated f of
        Inl e \<Rightarrow> Inl e
      | Inr f1 \<Rightarrow>
          (case copy_global_to_local mem x f1 of
             Inl e \<Rightarrow> Inl e
           | Inr f2 \<Rightarrow> evaluate_from_local_storage f2))"

definition evaluate_user :: "Function \<Rightarrow> (address \<Rightarrow> real) \<Rightarrow> error + real" where
  "evaluate_user f mem =
     (case ensure_allocated f of
        Inl e \<Rightarrow> Inl e
      | Inr f1 \<Rightarrow>
          (case copy_user_to_local mem f1 of
             Inl e \<Rightarrow> Inl e
           | Inr f2 \<Rightarrow> evaluate_from_local_storage f2))"

subsection \<open>Gradient and dense Hessian\<close>

text \<open>
  What a transform writes through \<^verbatim>\<open>&thread_gradient_storage[t][global_offset]\<close>: the new
  content from that position on, cut at the end of the vector.
\<close>

definition overwrite :: "nat \<Rightarrow> real list \<Rightarrow> real list \<Rightarrow> real list" where
  "overwrite off new st = take (length st) (take off st @ new @ drop (off + length new) st)"

text \<open>The gradient of one term is added to the accumulator (dense and gradient-only call).\<close>

definition add_gradient ::
  "real list \<Rightarrow> Function \<Rightarrow> nat list \<Rightarrow> (nat \<Rightarrow> nat \<Rightarrow> real) \<Rightarrow> real list \<Rightarrow> error + real list" where
  "add_gradient x f indices scratch storage =
     for_each [0..<length indices]
       (\<lambda>var st.
          if length (variables f) \<le> indices ! var then Inl OutOfRange
          else
            let v = variables f ! (indices ! var) in
            if \<not> is_constant v then
              (case change_of_variables v of
                 None \<Rightarrow>
                   for_each [0..<user_dimension v]
                     (\<lambda>i st. if length st \<le> global_index v + i then Inl OutOfRange
                             else Inr (st[global_index v + i :=
                                          st ! (global_index v + i) + scratch var i]))
                     st
               | Some c \<Rightarrow>
                   if global_index v < number_of_scalars f then
                     (if length st \<le> global_index v \<or> length x \<le> global_index v
                      then Inl OutOfRange
                      else Inr (overwrite (global_index v)
                                  (update_gradient c (drop (global_index v) st)
                                     (drop (global_index v) x) (scratch var)) st))
                   else Inr st)
            else Inr st)
       storage"

text \<open>The same for the call with a sparse Hessian: a transform is refused here.\<close>

definition add_gradient_sparse ::
  "Function \<Rightarrow> nat list \<Rightarrow> (nat \<Rightarrow> nat \<Rightarrow> real) \<Rightarrow> real list \<Rightarrow> error + real list" where
  "add_gradient_sparse f indices scratch storage =
     for_each [0..<length indices]
       (\<lambda>var st.
          if length (variables f) \<le> indices ! var then Inl OutOfRange
          else
            let v = variables f ! (indices ! var) in
            if \<not> is_constant v then
              (case change_of_variables v of
                 Some c \<Rightarrow> Inl UnsupportedOperation
               | None \<Rightarrow>
                   for_each [0..<user_dimension v]
                     (\<lambda>i st. if length st \<le> global_index v + i then Inl OutOfRange
                             else Inr (st[global_index v + i :=
                                          st ! (global_index v + i) + scratch var i]))
                     st)
            else Inr st)
       storage"

text \<open>
  \<^verbatim>\<open>hessian[var0][var1]\<close> of a grid: the block must be there.
\<close>

definition block_exists :: "(nat \<times> nat) list list \<Rightarrow> nat \<Rightarrow> nat \<Rightarrow> bool" where
  "block_exists grid var0 var1 \<longleftrightarrow> var0 < length grid \<and> var1 < length (grid ! var0)"

text \<open>
  Modelled from the spec: the class \<^verbatim>\<open>Term\<close> is not part of the sources. A term that is asked
  for its Hessian writes, through the pointer \<^verbatim>\<open>&terms[i].hessian\<close> it is handed, the block of
  each pair of its variables, of the dimensions it declares for the two: the grid must hold
  these blocks, with at least these rows and columns.
\<close>

definition grid_covers :: "(nat \<times> nat) list list \<Rightarrow> Term \<Rightarrow> bool" where
  "grid_covers grid t \<longleftrightarrow>
     list_all
       (\<lambda>var0. list_all
          (\<lambda>var1. block_exists grid var0 var1
                   \<and> variable_dimension t var0 \<le> fst (grid ! var0 ! var1)
                   \<and> variable_dimension t var1 \<le> snd (grid ! var0 ! var1))
          [0..<number_of_variables t])
       [0..<number_of_variables t]"

text \<open>
  One turn of the loop over the terms: the term is evaluated, with its Hessian blocks kept in
  \<^verbatim>\<open>terms[i].hessian\<close> when a Hessian is asked for, and its gradient is added.
\<close>

definition evaluate_term ::
  "bool \<Rightarrow> (nat list \<Rightarrow> (nat \<Rightarrow> nat \<Rightarrow> real) \<Rightarrow> real list \<Rightarrow> error + real list) \<Rightarrow> Function \<Rightarrow>
   AddedTerm \<Rightarrow> real \<times> real list \<Rightarrow> error + AddedTerm \<times> real \<times> real list" where
  "evaluate_term with_hessian adder f added_term s =
     (case s of (v, storage) \<Rightarrow>
        (case arguments_of f added_term of
           Inl e \<Rightarrow> Inl e
         | Inr a \<Rightarrow>
             if with_hessian then
               (if \<not> grid_covers (hessian_blocks added_term) (the_term added_term)
                then Inl OutOfRange
                else
                  case evaluate2 (the_term added_term) a of
                    (v', g, h) \<Rightarrow>
                      (case adder (added_variables_indices added_term) g storage of
                         Inl e \<Rightarrow> Inl e
                       | Inr storage' \<Rightarrow> Inr (added_term\<lparr>hessian := h\<rparr>, v + v', storage')))
             else
               (case evaluate1 (the_term added_term) a of
                  (v', g) \<Rightarrow>
                    (case adder (added_variables_indices added_term) g storage of
                       Inl e \<Rightarrow> Inl e
                     | Inr storage' \<Rightarrow> Inr (added_term, v + v', storage')))))"

text \<open>\<^verbatim>\<open>Eigen::MatrixXd\<close>: its size and its coefficients.\<close>

record matrix =
  rows :: nat
  cols :: nat
  coeff :: "nat \<Rightarrow> nat \<Rightarrow> real"

definition entries :: "matrix \<Rightarrow> real list list" where
  "entries H = map (\<lambda>i. map (coeff H i) [0..<cols H]) [0..<rows H]"

text \<open>\<^verbatim>\<open>hessian->coeffRef(r, c) += v\<close>\<close>

definition add_coeff :: "nat \<Rightarrow> nat \<Rightarrow> real \<Rightarrow> matrix \<Rightarrow> error + matrix" where
  "add_coeff r c v H =
     (if r < rows H \<and> c < cols H
      then Inr (H\<lparr>coeff := (coeff H)(r := (coeff H r)(c := coeff H r c + v))\<rparr>)
      else Inl OutOfRange)"

text \<open>
  \<^verbatim>\<open>part_hessian(i, j)\<close> for \<^verbatim>\<open>part_hessian = itr->hessian[var0][var1]\<close>: the coefficient
  must lie inside the block.
\<close>

definition part_hessian :: "AddedTerm \<Rightarrow> nat \<Rightarrow> nat \<Rightarrow> nat \<Rightarrow> nat \<Rightarrow> error + real" where
  "part_hessian added_term var0 var1 i j =
     (if block_exists (hessian_blocks added_term) var0 var1
         \<and> i < fst (hessian_blocks added_term ! var0 ! var1)
         \<and> j < snd (hessian_blocks added_term ! var0 ! var1)
      then Inr (hessian added_term var0 var1 i j)
      else Inl OutOfRange)"

text \<open>The blocks kept in one term are added to the dense Hessian.\<close>

definition dense_term :: "Function \<Rightarrow> AddedTerm \<Rightarrow> matrix \<Rightarrow> error + matrix" where
  "dense_term f added_term H =
     (let indices = added_variables_indices added_term; t = the_term added_term in
      for_each [0..<number_of_variables t]
        (\<lambda>var0 H.
           if length indices \<le> var0 \<or> length (variables f) \<le> indices ! var0
           then Inl OutOfRange
           else if \<not> is_constant (variables f ! (indices ! var0)) then
             (if change_of_variables (variables f ! (indices ! var0)) \<noteq> None
              then Inl UnsupportedOperation
              else
                for_each [0..<number_of_variables t]
                  (\<lambda>var1 H.
                     if length indices \<le> var1 \<or> length (variables f) \<le> indices ! var1
                     then Inl OutOfRange
                     else if \<not> is_constant (variables f ! (indices ! var1)) then
                       (if \<not> block_exists (hessian_blocks added_term) var0 var1
                        then Inl OutOfRange
                        else
                          for_each [0..<variable_dimension t var0]
                            (\<lambda>i H.
                               for_each [0..<variable_dimension t var1]
                                 (\<lambda>j H.
                                    case part_hessian added_term var0 var1 i j of
                                      Inl e \<Rightarrow> Inl e
                                    | Inr c \<Rightarrow>
                                        add_coeff
                                          (i + global_index (variables f ! (indices ! var0)))
                                          (j + global_index (variables f ! (indices ! var1)))
                                          c H)
                                 H)
                            H)
                     else Inr H)
                  H)
           else Inr H)
        H)"

text \<open>The dense Hessian: a zero matrix to which the blocks of every term are added.\<close>

definition dense_hessian :: "Function \<Rightarrow> error + matrix" where
  "dense_hessian f =
     for_each (terms f) (dense_term f)
       \<lparr>rows = number_of_scalars f, cols = number_of_scalars f, coeff = (\<lambda>_ _. 0)\<rparr>"

text \<open>
  \<^verbatim>\<open>Implementation::evaluate(x, gradient, hessian)\<close> with a dense Hessian; \<open>with_hessian\<close>
  tells whether the pointer \<^verbatim>\<open>hessian\<close> is set. The accumulator is set to zero, the terms are
  evaluated, the gradient is the accumulator's first \<open>number_of_scalars\<close> entries (added to
  zero), and the Hessian is put together.
\<close>

definition evaluate_dense ::
  "Function \<Rightarrow> (address \<Rightarrow> real) \<Rightarrow> real list \<Rightarrow> bool \<Rightarrow> error + real \<times> real list \<times> matrix option" where
  "evaluate_dense f mem x with_hessian =
     (if with_hessian \<and> \<not> hessian_is_enabled f then Inl HessianDisabled
      else
        case ensure_allocated f of
          Inl e \<Rightarrow> Inl e
        | Inr f1 \<Rightarrow>
            (case copy_global_to_local mem x f1 of
               Inl e \<Rightarrow> Inl e
             | Inr f2 \<Rightarrow>
                 (case update_each (evaluate_term with_hessian (add_gradient x f2) f2) (terms f2)
                         (the_constant f2, map (\<lambda>_. 0) (thread_gradient_storage f2)) of
                    Inl e \<Rightarrow> Inl e
                  | Inr (ts, v, storage) \<Rightarrow>
                      if length storage < number_of_scalars f2 then Inl OutOfRange
                      else if with_hessian then
                        (case dense_hessian (f2\<lparr>terms := ts\<rparr>) of
                           Inl e \<Rightarrow> Inl e
                         | Inr H \<Rightarrow> Inr (v, take (number_of_scalars f2) storage, Some H))
                      else Inr (v, take (number_of_scalars f2) storage, None))))"

subsection \<open>Sparse Hessian\<close>

text \<open>\<^verbatim>\<open>Eigen::Triplet<double>\<close>: row, column and value.\<close>

type_synonym triplet = "nat \<times> nat \<times> real"

text \<open>The triplets of the blocks kept in one term, pushed behind those collected so far.\<close>

definition sparse_term :: "Function \<Rightarrow> AddedTerm \<Rightarrow> triplet list \<Rightarrow> error + triplet list" where
  "sparse_term f added_term hessian_indices =
     (let indices = added_variables_indices added_term; t = the_term added_term in
      for_each [0..<number_of_variables t]
        (\<lambda>var0 hessian_indices.
           if length indices \<le> var0 \<or> length (variables f) \<le> indices ! var0
           then Inl OutOfRange
           else if \<not> is_constant (variables f ! (indices ! var0)) then
             for_each [0..<number_of_variables t]
               (\<lambda>var1 hessian_indices.
                  if length indices \<le> var1 \<or> length (variables f) \<le> indices ! var1
                  then Inl OutOfRange
                  else if \<not> is_constant (variables f ! (indices ! var1)) then
                    (if \<not> block_exists (hessian_blocks added_term) var0 var1
                     then Inl OutOfRange
                     else
                       for_each [0..<variable_dimension t var0]
                         (\<lambda>i hessian_indices.
                            for_each [0..<variable_dimension t var1]
                              (\<lambda>j hessian_indices.
                                 case part_hessian added_term var0 var1 i j of
                                   Inl e \<Rightarrow> Inl e
                                 | Inr c \<Rightarrow>
                                     Inr (hessian_indices @
                                       [(i + global_index (variables f ! (indices ! var0)),
                                         j + global_index (variables f ! (indices ! var1)),
                                         c)]))
                              hessian_indices)
                         hessian_indices)
                  else Inr hessian_indices)
               hessian_indices
           else Inr hessian_indices)
        hessian_indices)"

text \<open>The triplets of all terms, in the order they are pushed.\<close>

definition sparse_hessian :: "Function \<Rightarrow> error + triplet list" where
  "sparse_hessian f = for_each (terms f) (sparse_term f) []"

text \<open>
  \<^verbatim>\<open>Implementation::evaluate(x, gradient, hessian)\<close> with a sparse Hessian, for a pointer
  \<^verbatim>\<open>hessian\<close> that is set. The result holds the triplets handed to \<^verbatim>\<open>setFromTriplets\<close>.
\<close>

definition evaluate_sparse ::
  "Function \<Rightarrow> (address \<Rightarrow> real) \<Rightarrow> real list \<Rightarrow> error + real \<times> real list \<times> triplet list" where
  "evaluate_sparse f mem x =
     (if \<not> hessian_is_enabled f then Inl HessianDisabled
      else
        case ensure_allocated f of
          Inl e \<Rightarrow> Inl e
        | Inr f1 \<Rightarrow>
            (case copy_global_to_local mem x f1 of
               Inl e \<Rightarrow> Inl e
             | Inr f2 \<Rightarrow>
                 (case update_each (evaluate_term True (add_gradient_sparse f2) f2) (terms f2)
                         (the_constant f2, map (\<lambda>_. 0) (thread_gradient_storage f2)) of
                    Inl e \<Rightarrow> Inl e
                  | Inr (ts, v, storage) \<Rightarrow>
                      if length storage < number_of_scalars f2 then Inl OutOfRange
                      else
                        (case sparse_hessian (f2\<lparr>terms := ts\<rparr>) of
                           Inl e \<Rightarrow> Inl e
                         | Inr hessian_indices \<Rightarrow>
                             Inr (v, take (number_of_scalars f2) storage, hessian_indices)))))"

text \<open>
  Modelled from the spec: \<^verbatim>\<open>Eigen::SparseMatrix::setFromTriplets\<close> is not part of the
  sources; "duplicates at the same coordinate are summed by the assembly step". The
  coefficient of the assembled matrix at a coordinate is the sum of the triplets there.
\<close>

definition sparse_coeff :: "triplet list \<Rightarrow> nat \<Rightarrow> nat \<Rightarrow> real" where
  "sparse_coeff ts r c = sum_list (map (\<lambda>(r', c', v). v) (filter (\<lambda>(r', c', v). r' = r \<and> c' = c) ts))"

subsection \<open>Intervals\<close>

text \<open>
  Modelled from the spec: \<^verbatim>\<open>Interval<double>\<close> is not part of the sources; its sum is
  that of interval arithmetic, and a scalar is the interval of that one point.
\<close>

definition interval_add :: "interval \<Rightarrow> interval \<Rightarrow> interval" where
  "interval_add a b = (fst a + fst b, snd a + snd b)"

text \<open>
  \<^verbatim>\<open>Implementation::evaluate(const std::vector<Interval<double>>&)\<close>. For each variable of a
  term, \<^verbatim>\<open>&x[global_index]\<close> is pushed to the scratch: the position must exist in \<open>x\<close>, and
  the term reads from there on.
\<close>

definition evaluate_intervals :: "Function \<Rightarrow> interval list \<Rightarrow> error + interval" where
  "evaluate_intervals f x =
     for_each (terms f)
       (\<lambda>added_term v.
          case for_each (added_variables_indices added_term)
                 (\<lambda>var scratch_space.
                    if length (variables f) \<le> var then Inl OutOfRange
                    else if length x \<le> global_index (variables f ! var) then Inl OutOfRange
                    else Inr (scratch_space @ [drop (global_index (variables f ! var)) x]))
                 [] of
            Inl e \<Rightarrow> Inl e
          | Inr scratch_space \<Rightarrow>
              Inr (interval_add v (evaluate_interval (the_term added_term) scratch_space)))
       (the_constant f, the_constant f)"

subsection \<open>Serialization\<close>

text \<open>
  A stream is the list of the tokens written to it. The text of a token and the white space
  between tokens are not modelled: a count is read back as the same count and a scalar as the
  same scalar (the writer sets the precision to 30 digits). The fingerprint of the compiler,
  \<^verbatim>\<open>TermFactory::fix_name(typeid(std::vector<std::map<double,int>>).name())\<close>, is a
  parameter, \<open>type_format\<close>.
\<close>

text \<open>
  \<^verbatim>\<open>copy_user_to_global\<close>: \<open>x\<close> gets one entry for each free scalar, and every variable that
  is not constant is copied to its slice, through \<open>x_to_t\<close> when it has a transform. An entry
  that no variable writes, which \<^verbatim>\<open>resize\<close> leaves without a value, is taken as 0.
\<close>

definition copy_user_to_global :: "Function \<Rightarrow> (address \<Rightarrow> real) \<Rightarrow> error + real list" where
  "copy_user_to_global f mem =
     for_each (variables f)
       (\<lambda>var x.
          if \<not> is_constant var then
            (case change_of_variables var of
               None \<Rightarrow>
                 for_each [0..<user_dimension var]
                   (\<lambda>i x. if length x \<le> global_index var + i then Inl OutOfRange
                          else Inr (x[global_index var + i := mem (user_data var + i)]))
                   x
             | Some c \<Rightarrow>
                 if length x \<le> global_index var then Inl OutOfRange
                 else Inr (overwrite (global_index var)
                             (x_to_t c (map (\<lambda>i. mem (user_data var + i)) [0..<x_dimension c])) x))
          else Inr x)
       (replicate (number_of_scalars f) 0)"

text \<open>
  What the writer puts out for one term: its type, the number of its variables, the entries
  of \<^verbatim>\<open>added_variables_indices\<close>, and what the term writes of itself.
\<close>

definition term_record :: "AddedTerm \<Rightarrow> token list" where
  "term_record added_term =
     [Word (type_name (the_term added_term)),
      Count (length (added_variables_indices added_term))]
     @ map Count (added_variables_indices added_term)
     @ write_term (the_term added_term)"

text \<open>The loop that collects the pair of global index and user dimension of every variable.\<close>

definition variable_dimensions :: "Function \<Rightarrow> error + (nat \<times> nat) list" where
  "variable_dimensions f =
     for_each (variables f)
       (\<lambda>variable dims.
          if change_of_variables variable \<noteq> None then Inl UnsupportedOperation
          else Inr (dims @ [(global_index variable, user_dimension variable)]))
       []"

text \<open>
  \<^verbatim>\<open>Function::write_to_stream\<close>. On a failure the stream keeps what was written before.
\<close>

definition write_to_stream ::
  "string \<Rightarrow> Function \<Rightarrow> (address \<Rightarrow> real) \<Rightarrow> error option \<times> token list" where
  "write_to_stream type_format f mem =
     (let out = [Word ''spii::function'', Count 1, Word type_format,
                 Count (length (terms f)), Count (length (variables f)),
                 Count (number_of_scalars f), Scalar (the_constant f)] in
      case variable_dimensions f of
        Inl e \<Rightarrow> (Some e, out)
      | Inr dims \<Rightarrow>
          let out = out @ map (\<lambda>variable. Count (snd variable)) (sort dims) in
          (case copy_user_to_global f mem of
             Inl e \<Rightarrow> (Some e, out)
           | Inr x \<Rightarrow>
               if length x < number_of_scalars f then (Some OutOfRange, out)
               else
                 (None, out @ map Scalar (take (number_of_scalars f) x)
                            @ concat (map term_record (terms f)))))"

text \<open>The three kinds of \<^verbatim>\<open>read_and_check\<close>: a string, an integer, a double.\<close>

fun read_word :: "token list \<Rightarrow> error + string \<times> token list" where
  "read_word (Word s # rest) = Inr (s, rest)"
| "read_word _ = Inl ReadFailed"

fun read_count :: "token list \<Rightarrow> error + nat \<times> token list" where
  "read_count (Count n # rest) = Inr (n, rest)"
| "read_count _ = Inl ReadFailed"

fun read_scalar :: "token list \<Rightarrow> error + real \<times> token list" where
  "read_scalar (Scalar r # rest) = Inr (r, rest)"
| "read_scalar (Count n # rest) = Inr (real n, rest)"
| "read_scalar _ = Inl ReadFailed"

text \<open>Sequencing of steps that may fail, and a call that returns the object beside the error.\<close>

definition and_then :: "error + 'a \<Rightarrow> ('a \<Rightarrow> error + 'b) \<Rightarrow> error + 'b" where
  "and_then r k = (case r of Inl e \<Rightarrow> Inl e | Inr a \<Rightarrow> k a)"

definition call :: "error option \<times> Function \<Rightarrow> error + Function" where
  "call r = (case fst r of Some e \<Rightarrow> Inl e | None \<Rightarrow> Inr (snd r))"

text \<open>
  The loop that registers the variables: each at \<^verbatim>\<open>&user_space->at(current_var)\<close>, which is
  the address \<open>base + current_var\<close> for a vector that starts at \<open>base\<close>.
\<close>

fun read_variables ::
  "nat \<Rightarrow> address \<Rightarrow> nat \<Rightarrow> Function \<times> nat \<times> token list \<Rightarrow> error + Function \<times> nat \<times> token list" where
  "read_variables 0 base n s = Inr s"
| "read_variables (Suc i) base n (f, current_var, input) =
     and_then (read_count input) (\<lambda>(variable_dimension, input).
       if n \<le> current_var then Inl OutOfRange
       else
         and_then (call (add_variable (base + current_var) variable_dimension f)) (\<lambda>f.
           read_variables i base n (f, current_var + variable_dimension, input)))"

text \<open>The loop that reads the scalars into \<^verbatim>\<open>user_space\<close>.\<close>

fun read_scalars :: "nat \<Rightarrow> token list \<Rightarrow> error + real list \<times> token list" where
  "read_scalars 0 input = Inr ([], input)"
| "read_scalars (Suc i) input =
     and_then (read_scalar input) (\<lambda>(r, input).
       and_then (read_scalars i input) (\<lambda>(rs, input). Inr (r # rs, input)))"

text \<open>The loop that reads the offsets of one term and turns them into addresses.\<close>

fun read_arguments :: "nat \<Rightarrow> address \<Rightarrow> nat \<Rightarrow> token list \<Rightarrow> error + address list \<times> token list" where
  "read_arguments 0 base n input = Inr ([], input)"
| "read_arguments (Suc i) base n input =
     and_then (read_count input) (\<lambda>(offset, input).
       if n \<le> offset then Inl OutOfRange
       else
         and_then (read_arguments i base n input) (\<lambda>(arguments, input).
           Inr ((base + offset) # arguments, input)))"

text \<open>
  The loop that reads the terms. \<open>factory\<close> is \<^verbatim>\<open>TermFactory::create\<close>: from the name of a
  type and the stream it makes the term and leaves the rest of the stream, or fails.
\<close>

fun read_terms ::
  "nat \<Rightarrow> (string \<Rightarrow> token list \<Rightarrow> (Term \<times> token list) option) \<Rightarrow> address \<Rightarrow> nat \<Rightarrow>
   Function \<times> token list \<Rightarrow> error + Function \<times> token list" where
  "read_terms 0 factory base n s = Inr s"
| "read_terms (Suc i) factory base n (f, input) =
     and_then (read_word input) (\<lambda>(term_name, input).
       and_then (read_count input) (\<lambda>(term_vars, input).
         and_then (read_arguments term_vars base n input) (\<lambda>(arguments, input).
           case factory term_name input of
             None \<Rightarrow> Inl ReadFailed
           | Some (t, input) \<Rightarrow>
               and_then (call (add_term t arguments f)) (\<lambda>f.
                 read_terms i factory base n (f, input)))))"

text \<open>
  \<^verbatim>\<open>Function::read_from_stream\<close>, on a vector \<^verbatim>\<open>user_space\<close> that will start at the address
  \<open>base\<close>. It returns the function and the content of \<^verbatim>\<open>user_space\<close>; what a failed call
  leaves in the object is not modelled.
\<close>

definition read_from_stream ::
  "string \<Rightarrow> (string \<Rightarrow> token list \<Rightarrow> (Term \<times> token list) option) \<Rightarrow> address \<Rightarrow>
   token list \<Rightarrow> Function \<Rightarrow> error + Function \<times> real list" where
  "read_from_stream type_format factory base input f0 =
     (let f = clear f0 in
      and_then (read_word input) (\<lambda>(spii_function, input).
        if spii_function \<noteq> ''spii::function'' then Inl FormatMismatch
        else
          and_then (read_count input) (\<lambda>(version, input).
            and_then (read_word input) (\<lambda>(compiler_type_format, input).
              if compiler_type_format \<noteq> type_format then Inl IncompatibleBuild
              else
                and_then (read_count input) (\<lambda>(number_of_terms, input).
                  and_then (read_count input) (\<lambda>(number_of_variables, input).
                    and_then (read_count input) (\<lambda>(number_of_scalars, input).
                      and_then (read_scalar input) (\<lambda>(c, input).
                        and_then (read_variables number_of_variables base number_of_scalars
                                    (f\<lparr>the_constant := c\<rparr>, 0, input))
                          (\<lambda>(f, current_var, input).
                             if current_var \<noteq> number_of_scalars then Inl FormatMismatch
                             else
                               and_then (read_scalars number_of_scalars input)
                                 (\<lambda>(user_space, input).
                                    and_then (read_terms number_of_terms factory base
                                                number_of_scalars (f, input))
                                      (\<lambda>(f, input). Inr (f, user_space))))))))))))"

subsection \<open>Well-formed registries\<close>

text \<open>
  The scratch of every variable has the variable's user dimension, and a variable that is not
  constant lies inside the global coordinate vector: with its user dimension when it has no
  transform, with its first position when it has one.
\<close>

definition layout_ok :: "Function \<Rightarrow> bool" where
  "layout_ok f \<longleftrightarrow>
     (\<forall>v\<in>set (variables f).
        length (temp_space v) = user_dimension v \<and>
        (\<not> is_constant v \<longrightarrow>
           (case change_of_variables v of
              None \<Rightarrow> global_index v + user_dimension v \<le> number_of_scalars f
            | Some c \<Rightarrow> global_index v < number_of_scalars f)))"

text \<open>
  Every term is bound to as many variables as it has, all of them registered, and the first
  pointers of the term lead to the scratch of these variables: now, when the local storage
  is allocated, and after the allocation otherwise.
\<close>

definition bindings_ok :: "Function \<Rightarrow> bool" where
  "bindings_ok f \<longleftrightarrow>
     (\<forall>added_term\<in>set (terms f).
        length (added_variables_indices added_term) = number_of_variables (the_term added_term) \<and>
        (\<forall>k\<in>set (added_variables_indices added_term). k < length (variables f)) \<and>
        take (number_of_variables (the_term added_term))
          (if local_storage_allocated f then temp_variables added_term
           else temp_variables added_term @ added_variables_indices added_term)
          = added_variables_indices added_term)"

text \<open>
  What the scatter step leaves in the scratch of a variable, as the specification words it:
  the user's storage for a constant variable; otherwise the slice of \<open>x\<close> at the global index,
  through \<open>t_to_x\<close> when there is a transform.
\<close>

definition scattered :: "(address \<Rightarrow> real) \<Rightarrow> real list \<Rightarrow> AddedVariable \<Rightarrow> real list" where
  "scattered mem x v =
     (if is_constant v then map (\<lambda>i. mem (user_data v + i)) [0..<user_dimension v]
      else
        case change_of_variables v of
          None \<Rightarrow> map (\<lambda>i. x ! (global_index v + i)) [0..<user_dimension v]
        | Some c \<Rightarrow> t_to_x c (drop (global_index v) x))"

text \<open>The function once its local storage is there.\<close>

definition allocated :: "Function \<Rightarrow> Function" where
  "allocated f =
     (if local_storage_allocated f then f
      else f\<lparr>terms := map (\<lambda>a. a\<lparr>temp_variables := temp_variables a @ added_variables_indices a,
                                   hessian_blocks := (if hessian_is_enabled f
                                                      then block_grid (the_term a)
                                                      else hessian_blocks a)\<rparr>)
                          (terms f),
             thread_gradient_storage := replicate (number_of_scalars f + number_of_constants f) 0,
             local_storage_allocated := True\<rparr>)"

text \<open>
  The dimensions a term declares for its variables are the user dimensions of the variables
  it is bound to, and an allocated gradient accumulator has an entry for each free and each
  constant scalar.
\<close>

definition dimensions_ok :: "Function \<Rightarrow> bool" where
  "dimensions_ok f \<longleftrightarrow>
     (\<forall>added_term\<in>set (terms f).
        \<forall>var<length (added_variables_indices added_term).
          variable_dimension (the_term added_term) var =
            user_dimension (variables f ! (added_variables_indices added_term ! var))) \<and>
     (local_storage_allocated f \<longrightarrow>
        length (thread_gradient_storage f) = number_of_scalars f + number_of_constants f)"

text \<open>
  An allocated local storage holds, in every term, the Hessian blocks the term writes: it was
  allocated while the Hessian was enabled.
\<close>

definition blocks_ok :: "Function \<Rightarrow> bool" where
  "blocks_ok f \<longleftrightarrow>
     (local_storage_allocated f \<longrightarrow>
        (\<forall>added_term\<in>set (terms f).
           grid_covers (hessian_blocks added_term) (the_term added_term)))"

text \<open>No variable has a transform.\<close>

definition no_transform :: "Function \<Rightarrow> bool" where
  "no_transform f \<longleftrightarrow> (\<forall>v\<in>set (variables f). change_of_variables v = None)"

text \<open>
  The rows of Hessian blocks in the order in which the dense call visits them: for each term
  in turn, one row for each variable \<open>var0\<close> of the term. A row is given by the bindings of
  its term and by \<open>var0\<close>.
\<close>

definition block_rows :: "Function \<Rightarrow> (nat list \<times> nat) list" where
  "block_rows f =
     concat (map (\<lambda>added_term. map (Pair (added_variables_indices added_term))
                                  [0..<number_of_variables (the_term added_term)])
               (terms f))"

text \<open>The dense call refuses a row whose variable is not constant and has a transform.\<close>

definition refused_row :: "Function \<Rightarrow> nat list \<times> nat \<Rightarrow> bool" where
  "refused_row f r \<longleftrightarrow>
     \<not> is_constant (variables f ! (fst r ! snd r)) \<and>
     change_of_variables (variables f ! (fst r ! snd r)) \<noteq> None"

text \<open>
  The blocks of a row lie inside the first \<open>n\<close> columns: the row has no block, since its
  variable is constant or has no scalar, or every free variable of the term lies, with its
  user dimension, inside the first \<open>n\<close> scalars.
\<close>

definition row_inside :: "Function \<Rightarrow> nat \<Rightarrow> nat list \<times> nat \<Rightarrow> bool" where
  "row_inside f n r \<longleftrightarrow>
     is_constant (variables f ! (fst r ! snd r)) \<or>
     user_dimension (variables f ! (fst r ! snd r)) = 0 \<or>
     (\<forall>k1\<in>set (fst r).
        \<not> is_constant (variables f ! k1) \<longrightarrow>
        global_index (variables f ! k1) + user_dimension (variables f ! k1) \<le> n)"

text \<open>
  The blocks that the dense call adds to the Hessian before it refuses a row lie inside the
  matrix.
\<close>

definition blocks_inside :: "Function \<Rightarrow> bool" where
  "blocks_inside f \<longleftrightarrow>
     (\<forall>r\<in>set (takeWhile (\<lambda>r. \<not> refused_row f r) (block_rows f)).
        row_inside f (number_of_scalars f) r)"

text \<open>Some term is bound to a variable that is not constant and has a transform.\<close>

definition transform_bound :: "Function \<Rightarrow> bool" where
  "transform_bound f \<longleftrightarrow>
     (\<exists>a\<in>set (terms f). \<exists>k\<in>set (added_variables_indices a).
        \<not> is_constant (variables f ! k) \<and> change_of_variables (variables f ! k) \<noteq> None)"

text \<open>The function after the allocation of its local storage and the scatter of \<open>x\<close>.\<close>

definition prepared :: "(address \<Rightarrow> real) \<Rightarrow> real list \<Rightarrow> Function \<Rightarrow> Function" where
  "prepared mem x f =
     (allocated f)\<lparr>variables := map (\<lambda>v. v\<lparr>temp_space := scattered mem x v\<rparr>) (variables f)\<rparr>"

text \<open>
  Two entries of the term registry with the same term, the same bindings and the same grid of
  Hessian blocks.
\<close>

definition same_binding :: "AddedTerm \<Rightarrow> AddedTerm \<Rightarrow> bool" where
  "same_binding a a' \<longleftrightarrow>
     the_term a' = the_term a \<and> added_variables_indices a' = added_variables_indices a \<and>
     hessian_blocks a' = hessian_blocks a"



text \<open>A term one of whose free variables has a transform.\<close>

definition offending :: "Function \<Rightarrow> AddedTerm \<Rightarrow> bool" where
  "offending f a \<longleftrightarrow>
     (\<exists>var<length (added_variables_indices a).
        \<not> is_constant (variables f ! (added_variables_indices a ! var)) \<and>
        change_of_variables (variables f ! (added_variables_indices a ! var)) \<noteq> None)"

text \<open>
  A term that holds its Hessian blocks and all of whose free variables lie inside the first
  \<open>n\<close> scalars: with its user dimension a variable without transform, with its first position
  a variable with one.
\<close>

definition term_inside :: "Function \<Rightarrow> nat \<Rightarrow> AddedTerm \<Rightarrow> bool" where
  "term_inside f n a \<longleftrightarrow>
     length (added_variables_indices a) = number_of_variables (the_term a) \<and>
     grid_covers (hessian_blocks a) (the_term a) \<and>
     (\<forall>var<number_of_variables (the_term a).
        added_variables_indices a ! var < length (variables f) \<and>
        variable_dimension (the_term a) var
          = user_dimension (variables f ! (added_variables_indices a ! var)) \<and>
        (\<not> is_constant (variables f ! (added_variables_indices a ! var)) \<longrightarrow>
           (case change_of_variables (variables f ! (added_variables_indices a ! var)) of
              None \<Rightarrow> global_index (variables f ! (added_variables_indices a ! var))
                        + user_dimension (variables f ! (added_variables_indices a ! var)) \<le> n
            | Some c \<Rightarrow> global_index (variables f ! (added_variables_indices a ! var)) < n)))"

text \<open>
  The body of the loop over \<open>var1\<close> in \<open>dense_term\<close>, and the body of the loop over \<open>var0\<close>:
  the blocks of one pair of variables, and one row of blocks.
\<close>

definition dense_block :: "Function \<Rightarrow> AddedTerm \<Rightarrow> nat \<Rightarrow> nat \<Rightarrow> matrix \<Rightarrow> error + matrix" where
  "dense_block f added_term var0 =
     (\<lambda>var1 H.
        if length (added_variables_indices added_term) \<le> var1
           \<or> length (variables f) \<le> added_variables_indices added_term ! var1
        then Inl OutOfRange
        else if \<not> is_constant (variables f ! (added_variables_indices added_term ! var1)) then
          (if \<not> block_exists (hessian_blocks added_term) var0 var1 then Inl OutOfRange
           else
             for_each [0..<variable_dimension (the_term added_term) var0]
               (\<lambda>i H.
                  for_each [0..<variable_dimension (the_term added_term) var1]
                    (\<lambda>j H.
                       case part_hessian added_term var0 var1 i j of
                         Inl e \<Rightarrow> Inl e
                       | Inr c \<Rightarrow>
                           add_coeff
                             (i + global_index
                                    (variables f ! (added_variables_indices added_term ! var0)))
                             (j + global_index
                                    (variables f ! (added_variables_indices added_term ! var1)))
                             c H)
                    H)
               H)
        else Inr H)"

definition dense_row :: "Function \<Rightarrow> AddedTerm \<Rightarrow> nat \<Rightarrow> matrix \<Rightarrow> error + matrix" where
  "dense_row f added_term =
     (\<lambda>var0 H.
        if length (added_variables_indices added_term) \<le> var0
           \<or> length (variables f) \<le> added_variables_indices added_term ! var0
        then Inl OutOfRange
        else if \<not> is_constant (variables f ! (added_variables_indices added_term ! var0)) then
          (if change_of_variables (variables f ! (added_variables_indices added_term ! var0))
                \<noteq> None
           then Inl UnsupportedOperation
           else for_each [0..<number_of_variables (the_term added_term)]
                  (dense_block f added_term var0) H)
        else Inr H)"

subsection \<open>Functions built through the interface\<close>





text \<open>The part of \<open>well_formed\<close> that speaks of the variables only.\<close>

definition variables_ok :: "Function \<Rightarrow> bool" where
  "variables_ok f \<longleftrightarrow>
     layout_ok f \<and> no_transform f \<and>
     (\<forall>v\<in>set (variables f). solver_dimension v = user_dimension v) \<and>
     (\<forall>p k. variables_map f p = Some k \<longrightarrow> k < length (variables f))"


subsection \<open>The layout of the global coordinate vector\<close>

definition free_scalars :: "AddedVariable list \<Rightarrow> nat" where
  "free_scalars vs = sum_list (map solver_dimension (filter (\<lambda>v. \<not> is_constant v) vs))"

definition constant_scalars :: "AddedVariable list \<Rightarrow> nat" where
  "constant_scalars vs = sum_list (map solver_dimension (filter is_constant vs))"

definition assigned_index :: "AddedVariable list \<Rightarrow> nat \<Rightarrow> nat" where
  "assigned_index vs i =
     (if is_constant (vs ! i) then free_scalars vs + constant_scalars (take i vs)
      else free_scalars (take i vs))"

text \<open>The registry after both passes: every entry keeps its fields but the index.\<close>

definition reindexed :: "AddedVariable list \<Rightarrow> AddedVariable list" where
  "reindexed vs = map (\<lambda>i. (vs ! i)\<lparr>global_index := assigned_index vs i\<rparr>) [0..<length vs]"


subsection \<open>Two terms for the scenarios\<close>

text \<open>\<open>f(x) = x0^2 + x1^2\<close> of one variable with two scalars.\<close>

definition squares :: Term where
  "squares = \<lparr>number_of_variables = 1, variable_dimension = (\<lambda>_. 2),
     evaluate0 = (\<lambda>a. (a ! 0 ! 0)\<^sup>2 + (a ! 0 ! 1)\<^sup>2),
     evaluate1 = (\<lambda>a. ((a ! 0 ! 0)\<^sup>2 + (a ! 0 ! 1)\<^sup>2, \<lambda>var i. 2 * (a ! 0 ! i))),
     evaluate2 = (\<lambda>a. ((a ! 0 ! 0)\<^sup>2 + (a ! 0 ! 1)\<^sup>2, (\<lambda>var i. 2 * (a ! 0 ! i)),
                    (\<lambda>var0 var1 i j. if i = j then 2 else 0))),
     evaluate_interval = (\<lambda>a. (0, 0)),
     type_name = ''squares'', write_term = []\<rparr>"

text \<open>\<open>g(x, y) = x0 y0 + x1 y1\<close> of two variables with two scalars each.\<close>

definition product :: Term where
  "product = \<lparr>number_of_variables = 2, variable_dimension = (\<lambda>_. 2),
     evaluate0 = (\<lambda>a. a ! 0 ! 0 * a ! 1 ! 0 + a ! 0 ! 1 * a ! 1 ! 1),
     evaluate1 = (\<lambda>a. (a ! 0 ! 0 * a ! 1 ! 0 + a ! 0 ! 1 * a ! 1 ! 1, \<lambda>var i. a ! (1 - var) ! i)),
     evaluate2 = (\<lambda>a. (a ! 0 ! 0 * a ! 1 ! 0 + a ! 0 ! 1 * a ! 1 ! 1, (\<lambda>var i. a ! (1 - var) ! i),
                    (\<lambda>var0 var1 i j. if var0 \<noteq> var1 \<and> i = j then 1 else 0))),
     evaluate_interval = (\<lambda>a. (0, 0)),
     type_name = ''product'', write_term = []\<rparr>"


subsection \<open>Registries for the scenarios\<close>

text \<open>\<^verbatim>\<open>set_constant(v, true)\<close> followed by \<^verbatim>\<open>set_constant(v, false)\<close>.\<close>

definition toggle :: "address \<Rightarrow> Function \<Rightarrow> Function" where
  "toggle v f = snd (set_constant v False (snd (set_constant v True f)))"

text \<open>A variable of two scalars at address 10 and one of three scalars at address 20.\<close>

definition two_variables :: Function where
  "two_variables = snd (add_variable 20 3 (snd (add_variable 10 2 new_Function)))"

text \<open>One variable of two scalars, marked constant.\<close>

definition constant_only :: Function where
  "constant_only = snd (set_constant 10 True (snd (add_variable 10 2 new_Function)))"

text \<open>Two variables, the first marked constant, and a third registered afterwards.\<close>

definition added_after_constant :: Function where
  "added_after_constant =
     snd (add_variable 30 1 (snd (set_constant 10 True
       (snd (add_variable 20 1 (snd (add_variable 10 1 new_Function)))))))"

text \<open>One variable of three scalars at address 20.\<close>

definition three_scalars :: Function where
  "three_scalars = snd (add_variable 20 3 new_Function)"

text \<open>The scenario of the specification: one variable of two scalars and the term \<open>squares\<close>.\<close>

definition one_variable :: Function where
  "one_variable = snd (add_term squares [10] (snd (add_variable 10 2 new_Function)))"



text \<open>The user's storage with 3 and 4 at the addresses 10 and 11.\<close>

definition three_four :: "address \<Rightarrow> real" where
  "three_four = (\<lambda>a. if a = 10 then 3 else if a = 11 then 4 else 0)"

text \<open>The transform \<open>x = 2 t\<close> on two scalars.\<close>

definition doubling :: ChangeOfVariables where
  "doubling = \<lparr>x_dimension = 2, t_dimension = 2,
     t_to_x = (\<lambda>t. map (\<lambda>v. 2 * v) (take 2 t)),
     x_to_t = (\<lambda>x. map (\<lambda>v. v / 2) (take 2 x)),
     update_gradient = (\<lambda>acc t g. map (\<lambda>i. acc ! i + 2 * g i) [0..<2])\<rparr>"

text \<open>The transform \<open>x = (t, t)\<close> of one scalar to two.\<close>

definition folding :: ChangeOfVariables where
  "folding = \<lparr>x_dimension = 2, t_dimension = 1,
     t_to_x = (\<lambda>t. [t ! 0, t ! 0]),
     x_to_t = (\<lambda>x. [x ! 0]),
     update_gradient = (\<lambda>acc t g. [acc ! 0 + g 0 + g 1])\<rparr>"

text \<open>One variable with the transform \<open>doubling\<close>, bound to the term \<open>squares\<close>.\<close>

definition transformed :: Function where
  "transformed =
     snd (add_term squares [10] (snd (add_variable_internal 10 2 (Some doubling) new_Function)))"

text \<open>The same with the variable marked constant.\<close>

definition transformed_constant :: Function where
  "transformed_constant = snd (set_constant 10 True transformed)"

text \<open>One variable with the transform \<open>folding\<close>, bound to the term \<open>squares\<close>.\<close>

definition folded :: Function where
  "folded =
     snd (add_term squares [10] (snd (add_variable_internal 10 2 (Some folding) new_Function)))"

text \<open>
  A variable without transform and a variable with the transform \<open>folding\<close>, both bound to
  the term \<open>product\<close>.
\<close>

definition plain_and_folded :: Function where
  "plain_and_folded =
     snd (add_term product [10, 20]
            (snd (add_variable_internal 20 2 (Some folding)
                    (snd (add_variable 10 2 new_Function)))))"

text \<open>
  The same two variables, with the term \<open>squares\<close> bound to the second before the term
  \<open>product\<close> is bound to both.
\<close>

definition folded_first :: Function where
  "folded_first =
     snd (add_term product [10, 20]
            (snd (add_term squares [20]
                    (snd (add_variable_internal 20 2 (Some folding)
                            (snd (add_variable 10 2 new_Function)))))))"

text \<open>
  The function \<open>one_variable\<close> after an evaluation made while the Hessian was disabled, with
  the Hessian enabled again.
\<close>

definition enabled_late :: Function where
  "enabled_late =
     (prepared three_four [3, 4] (one_variable\<lparr>hessian_is_enabled := False\<rparr>))
       \<lparr>hessian_is_enabled := True\<rparr>"

text \<open>\<open>h(x) = x0\<close> of one variable with one scalar.\<close>

definition first_scalar :: Term where
  "first_scalar = \<lparr>number_of_variables = 1, variable_dimension = (\<lambda>_. 1),
     evaluate0 = (\<lambda>a. a ! 0 ! 0),
     evaluate1 = (\<lambda>a. (a ! 0 ! 0, \<lambda>var i. 1)),
     evaluate2 = (\<lambda>a. (a ! 0 ! 0, (\<lambda>var i. 1), (\<lambda>var0 var1 i j. 0))),
     evaluate_interval = (\<lambda>a. a ! 0 ! 0),
     type_name = ''first_scalar'', write_term = []\<rparr>"

text \<open>
  A variable of one scalar bound to \<open>first_scalar\<close> and marked constant, and a second variable
  registered afterwards.
\<close>

definition bound_constant :: Function where
  "bound_constant = snd (set_constant 10 True (snd (add_term first_scalar [10] new_Function)))"

definition bound_constant_then_added :: Function where
  "bound_constant_then_added = snd (add_variable 20 1 bound_constant)"

text \<open>
  Two variables of two scalars each, at the addresses 10 and 20, and the term \<open>squares\<close> bound
  to the second.
\<close>

definition second_bound :: Function where
  "second_bound = snd (add_term squares [20] (snd (add_variable 10 2 new_Function)))"

text \<open>The user's storage with 3, 4 at the addresses 10, 11 and 5, 6 at the addresses 20, 21.\<close>

definition three_to_six :: "address \<Rightarrow> real" where
  "three_to_six = (\<lambda>a. if a = 10 then 3 else if a = 11 then 4
                        else if a = 20 then 5 else if a = 21 then 6 else 0)"

text \<open>A factory that knows the term \<open>squares\<close>, which writes nothing of itself.\<close>

definition squares_factory :: "string \<Rightarrow> token list \<Rightarrow> (Term \<times> token list) option" where
  "squares_factory term_name input =
     (if term_name = ''squares'' then Some (squares, input) else None)"

text \<open>The storage of a vector that starts at the address \<open>base\<close>.\<close>

definition storage_of :: "address \<Rightarrow> real list \<Rightarrow> address \<Rightarrow> real" where
  "storage_of base user_space = (\<lambda>a. if base \<le> a \<and> a < base + length user_space
                                      then user_space ! (a - base) else 0)"

section \<open>Properties\<close>

subsection \<open>Re-indexing\<close>

lemma free_scalars_simps [simp]:
  "free_scalars [] = 0"
  "free_scalars (v # vs) = (if is_constant v then 0 else solver_dimension v) + free_scalars vs"
  by (simp_all add: free_scalars_def)

lemma constant_scalars_simps [simp]:
  "constant_scalars [] = 0"
  "constant_scalars (v # vs) = (if is_constant v then solver_dimension v else 0) + constant_scalars vs"
  by (simp_all add: constant_scalars_def)

lemma index_free_closed:
  "index_free vs n = (vs', n') \<Longrightarrow>
     n' = n + free_scalars vs \<and> length vs' = length vs \<and>
     (\<forall>i<length vs. vs' ! i =
        (if is_constant (vs ! i) then vs ! i
         else (vs ! i)\<lparr>global_index := n + free_scalars (take i vs)\<rparr>))"
proof (induction vs arbitrary: n vs' n')
  case Nil
  then show ?case by simp
next
  case (Cons v vs)
  show ?case
  proof (cases "is_constant v")
    case True
    obtain ws m where r: "index_free vs n = (ws, m)" by (cases "index_free vs n")
    from Cons.prems True r have e: "vs' = v # ws" "n' = m" by simp_all
    from Cons.IH [OF r] True e show ?thesis
      by (auto simp: nth_Cons split: nat.splits)
  next
    case False
    obtain ws m where r: "index_free vs (n + solver_dimension v) = (ws, m)"
      by (cases "index_free vs (n + solver_dimension v)")
    from Cons.prems False r have e: "vs' = v\<lparr>global_index := n\<rparr> # ws" "n' = m" by simp_all
    from Cons.IH [OF r] False e show ?thesis
      by (auto simp: nth_Cons add.assoc split: nat.splits)
  qed
qed

lemma index_constant_closed:
  "index_constant vs n c = (vs', c') \<Longrightarrow>
     c' = c + constant_scalars vs \<and> length vs' = length vs \<and>
     (\<forall>i<length vs. vs' ! i =
        (if is_constant (vs ! i)
         then (vs ! i)\<lparr>global_index := n + (c + constant_scalars (take i vs))\<rparr>
         else vs ! i))"
proof (induction vs arbitrary: c vs' c')
  case Nil
  then show ?case by simp
next
  case (Cons v vs)
  show ?case
  proof (cases "is_constant v")
    case False
    obtain ws m where r: "index_constant vs n c = (ws, m)" by (cases "index_constant vs n c")
    from Cons.prems False r have e: "vs' = v # ws" "c' = m" by simp_all
    from Cons.IH [OF r] False e show ?thesis
      by (auto simp: nth_Cons split: nat.splits)
  next
    case True
    obtain ws m where r: "index_constant vs n (c + solver_dimension v) = (ws, m)"
      by (cases "index_constant vs n (c + solver_dimension v)")
    from Cons.prems True r have e: "vs' = v\<lparr>global_index := n + c\<rparr> # ws" "c' = m" by simp_all
    from Cons.IH [OF r] True e show ?thesis
      by (auto simp: nth_Cons add.assoc split: nat.splits)
  qed
qed

lemma free_scalars_cong:
  "map is_constant vs = map is_constant ws \<Longrightarrow> map solver_dimension vs = map solver_dimension ws
   \<Longrightarrow> free_scalars vs = free_scalars ws"
proof (induction vs arbitrary: ws)
  case Nil then show ?case by simp
next
  case (Cons v vs)
  then obtain w ws' where "ws = w # ws'" by (cases ws) auto
  with Cons show ?case by auto
qed

lemma constant_scalars_cong:
  "map is_constant vs = map is_constant ws \<Longrightarrow> map solver_dimension vs = map solver_dimension ws
   \<Longrightarrow> constant_scalars vs = constant_scalars ws"
proof (induction vs arbitrary: ws)
  case Nil then show ?case by simp
next
  case (Cons v vs)
  then obtain w ws' where "ws = w # ws'" by (cases ws) auto
  with Cons show ?case by auto
qed

lemma both_passes:
  assumes "index_free vs 0 = (vs1, n)" and "index_constant vs1 n 0 = (vs2, c)"
  shows "vs2 = reindexed vs \<and> n = free_scalars vs \<and> c = constant_scalars vs"
proof -
  from index_free_closed [OF assms(1)]
  have n: "n = free_scalars vs" and l1: "length vs1 = length vs"
    and e1: "\<And>i. i < length vs \<Longrightarrow> vs1 ! i =
        (if is_constant (vs ! i) then vs ! i
         else (vs ! i)\<lparr>global_index := free_scalars (take i vs)\<rparr>)"
    by simp_all
  have flags: "map is_constant vs1 = map is_constant vs"
    by (rule nth_equalityI) (simp_all add: l1 e1)
  have dims: "map solver_dimension vs1 = map solver_dimension vs"
    by (rule nth_equalityI) (simp_all add: l1 e1)
  have tk: "constant_scalars (take i vs1) = constant_scalars (take i vs)" for i
    by (rule constant_scalars_cong) (simp_all add: flags dims take_map [symmetric])
  from index_constant_closed [OF assms(2)]
  have c: "c = constant_scalars vs1" and l2: "length vs2 = length vs1"
    and e2: "\<And>i. i < length vs1 \<Longrightarrow> vs2 ! i =
        (if is_constant (vs1 ! i)
         then (vs1 ! i)\<lparr>global_index := n + constant_scalars (take i vs1)\<rparr>
         else vs1 ! i)"
    by simp_all
  have "vs2 = reindexed vs"
    by (rule nth_equalityI)
       (simp_all add: l1 l2 reindexed_def e1 e2 assigned_index_def n tk)
  moreover have "c = constant_scalars vs"
    unfolding c by (rule constant_scalars_cong) (simp_all add: flags dims)
  ultimately show ?thesis using n by simp
qed

lemma set_constant_closed:
  assumes "variables_map f variable = Some k" and "k < length (variables f)"
  shows "set_constant variable flag f =
    (None, f\<lparr>variables := reindexed ((variables f)[k := (variables f ! k)\<lparr>is_constant := flag\<rparr>]),
             number_of_scalars := free_scalars ((variables f)[k := (variables f ! k)\<lparr>is_constant := flag\<rparr>]),
             number_of_constants := constant_scalars ((variables f)[k := (variables f ! k)\<lparr>is_constant := flag\<rparr>]),
             local_storage_allocated := False\<rparr>)"
proof -
  let ?vs0 = "(variables f)[k := (variables f ! k)\<lparr>is_constant := flag\<rparr>]"
  obtain vs1 n where a: "index_free ?vs0 0 = (vs1, n)" by (cases "index_free ?vs0 0")
  obtain vs2 c where b: "index_constant vs1 n 0 = (vs2, c)" by (cases "index_constant vs1 n 0")
  from both_passes [OF a b] a b assms show ?thesis
    by (simp add: set_constant_def)
qed

lemma set_constant_success:
  "set_constant variable flag f = (None, f') \<Longrightarrow>
     \<exists>k. variables_map f variable = Some k \<and> k < length (variables f)"
  by (auto simp: set_constant_def split: option.splits if_splits prod.splits)

lemma reindexed_length [simp]: "length (reindexed vs) = length vs"
  by (simp add: reindexed_def)

lemma reindexed_nth:
  "i < length vs \<Longrightarrow> reindexed vs ! i = (vs ! i)\<lparr>global_index := assigned_index vs i\<rparr>"
  by (simp add: reindexed_def)

lemma reindexed_flags [simp]: "map is_constant (reindexed vs) = map is_constant vs"
  by (rule nth_equalityI) (simp_all add: reindexed_nth)

lemma reindexed_dims [simp]: "map solver_dimension (reindexed vs) = map solver_dimension vs"
  by (rule nth_equalityI) (simp_all add: reindexed_nth)

lemma free_scalars_reindexed [simp]: "free_scalars (reindexed vs) = free_scalars vs"
  by (rule free_scalars_cong) simp_all

lemma constant_scalars_reindexed [simp]: "constant_scalars (reindexed vs) = constant_scalars vs"
  by (rule constant_scalars_cong) simp_all

lemma free_scalars_take_reindexed [simp]:
  "free_scalars (take i (reindexed vs)) = free_scalars (take i vs)"
  by (rule free_scalars_cong) (simp_all add: take_map [symmetric])

lemma constant_scalars_take_reindexed [simp]:
  "constant_scalars (take i (reindexed vs)) = constant_scalars (take i vs)"
  by (rule constant_scalars_cong) (simp_all add: take_map [symmetric])

lemma free_scalars_all_constant: "\<forall>v\<in>set vs. is_constant v \<Longrightarrow> free_scalars vs = 0"
  by (induction vs) simp_all

lemma set_constant_indices:
  assumes "set_constant variable flag f = (None, f')"
  shows "number_of_scalars f' = free_scalars (variables f') \<and>
         number_of_constants f' = constant_scalars (variables f') \<and>
         (\<forall>i<length (variables f').
            global_index (variables f' ! i) =
              (if is_constant (variables f' ! i)
               then number_of_scalars f' + constant_scalars (take i (variables f'))
               else free_scalars (take i (variables f')))) \<and>
         ((\<forall>v\<in>set (variables f'). is_constant v) \<longrightarrow> number_of_scalars f' = 0)"
proof -
  from set_constant_success [OF assms] obtain k
    where k: "variables_map f variable = Some k" "k < length (variables f)" by blast
  let ?us = "(variables f)[k := (variables f ! k)\<lparr>is_constant := flag\<rparr>]"
  from set_constant_closed [OF k, of flag] assms
  have f': "variables f' = reindexed ?us" "number_of_scalars f' = free_scalars ?us"
    "number_of_constants f' = constant_scalars ?us"
    by auto
  have a: "number_of_scalars f' = free_scalars (variables f')" by (simp add: f')
  have b: "number_of_constants f' = constant_scalars (variables f')" by (simp add: f')
  have c: "\<forall>i<length (variables f').
            global_index (variables f' ! i) =
              (if is_constant (variables f' ! i)
               then number_of_scalars f' + constant_scalars (take i (variables f'))
               else free_scalars (take i (variables f')))"
    by (simp add: f' reindexed_nth assigned_index_def)
  have d: "(\<forall>v\<in>set (variables f'). is_constant v) \<longrightarrow> number_of_scalars f' = 0"
    using a free_scalars_all_constant by auto
  from a b c d show ?thesis by blast
qed

text \<open>
  Claim C6. After a call of \<^verbatim>\<open>set_constant\<close> that finds its variable, the scalar count is the
  sum of the solver dimensions of the variables that are not constant (so it is 0 when every
  variable is constant); a variable that is not constant has as global index the sum of the
  solver dimensions of the non-constant variables before it in the registry, so these
  variables fill the indices from 0 up to the scalar count without gaps; and a constant variable
  has as global index the scalar count plus the solver dimensions of the constant variables
  before it, so the constant variables form one block behind the free ones.
\<close>

theorem set_constant_layout:
  assumes "set_constant variable flag f = (None, f')"
  shows "number_of_scalars f' = free_scalars (variables f') \<and>
         number_of_constants f' = constant_scalars (variables f') \<and>
         (\<forall>i<length (variables f').
            global_index (variables f' ! i) =
              (if is_constant (variables f' ! i)
               then number_of_scalars f' + constant_scalars (take i (variables f'))
               else free_scalars (take i (variables f')))) \<and>
         ((\<forall>v\<in>set (variables f'). is_constant v) \<longrightarrow> number_of_scalars f' = 0)"
  using set_constant_indices [OF assms] .

lemma assigned_index_cong:
  assumes "map is_constant vs = map is_constant ws" "map solver_dimension vs = map solver_dimension ws"
    and "i < length vs"
  shows "assigned_index vs i = assigned_index ws i"
proof -
  have l: "length vs = length ws" using assms(1) by (metis length_map)
  have "is_constant (vs ! i) = is_constant (ws ! i)"
    using assms(1,3) l by (metis nth_map)
  moreover have "free_scalars vs = free_scalars ws" by (rule free_scalars_cong) fact+
  moreover have "free_scalars (take i vs) = free_scalars (take i ws)"
    by (rule free_scalars_cong) (simp_all add: assms take_map [symmetric])
  moreover have "constant_scalars (take i vs) = constant_scalars (take i ws)"
    by (rule constant_scalars_cong) (simp_all add: assms take_map [symmetric])
  ultimately show ?thesis by (simp add: assigned_index_def)
qed

text \<open>
  Claim C7, amended. Let \<open>v\<close> be registered and not constant, and let the scalar count
  and the global index of every other variable be what a re-indexing pass assigns. Then both
  calls succeed, and \<^verbatim>\<open>set_constant(v, true)\<close> followed by \<^verbatim>\<open>set_constant(v, false)\<close>
  restores the scalar count and the global index of every other variable.
\<close>

theorem toggle_restores:
  assumes k: "variables_map f v = Some k" "k < length (variables f)"
    and free: "\<not> is_constant (variables f ! k)"
    and n: "number_of_scalars f = free_scalars (variables f)"
    and others: "\<forall>i<length (variables f). i \<noteq> k \<longrightarrow>
                   global_index (variables f ! i) = assigned_index (variables f) i"
  shows "fst (set_constant v True f) = None \<and>
         fst (set_constant v False (snd (set_constant v True f))) = None \<and>
         number_of_scalars (toggle v f) = number_of_scalars f \<and>
         length (variables (toggle v f)) = length (variables f) \<and>
         (\<forall>i<length (variables f). i \<noteq> k \<longrightarrow>
            global_index (variables (toggle v f) ! i) = global_index (variables f ! i))"
proof -
  let ?vs = "variables f"
  let ?us = "?vs[k := (?vs ! k)\<lparr>is_constant := True\<rparr>]"
  let ?f1 = "snd (set_constant v True f)"
  have s1: "set_constant v True f = (None, f\<lparr>variables := reindexed ?us,
             number_of_scalars := free_scalars ?us,
             number_of_constants := constant_scalars ?us,
             local_storage_allocated := False\<rparr>)"
    by (rule set_constant_closed [OF k])
  have k1: "variables_map ?f1 v = Some k" "k < length (variables ?f1)"
    using k by (simp_all add: s1)
  let ?ws = "variables ?f1"
  let ?xs = "?ws[k := (?ws ! k)\<lparr>is_constant := False\<rparr>]"
  have s2: "set_constant v False ?f1 = (None, ?f1\<lparr>variables := reindexed ?xs,
             number_of_scalars := free_scalars ?xs,
             number_of_constants := constant_scalars ?xs,
             local_storage_allocated := False\<rparr>)"
    by (rule set_constant_closed [OF k1])
  have ws: "?ws = reindexed ?us" by (simp add: s1)
  have flags: "map is_constant ?xs = map is_constant ?vs"
    using k(2) free
    by (intro nth_equalityI) (auto simp: ws reindexed_nth nth_list_update)
  have dims: "map solver_dimension ?xs = map solver_dimension ?vs"
    using k(2)
    by (intro nth_equalityI) (auto simp: ws reindexed_nth nth_list_update)
  have tog: "toggle v f = ?f1\<lparr>variables := reindexed ?xs,
             number_of_scalars := free_scalars ?xs,
             number_of_constants := constant_scalars ?xs,
             local_storage_allocated := False\<rparr>"
    unfolding toggle_def s2 by simp
  have a: "number_of_scalars (toggle v f) = number_of_scalars f"
    unfolding tog n by (simp add: free_scalars_cong [OF flags dims])
  have lw: "length ?xs = length ?vs" by (simp add: ws)
  have b: "length (variables (toggle v f)) = length ?vs"
    unfolding tog by (simp add: ws)
  have c: "global_index (variables (toggle v f) ! i) = global_index (?vs ! i)"
    if "i < length ?vs" "i \<noteq> k" for i
  proof -
    have "global_index (variables (toggle v f) ! i) = assigned_index ?xs i"
      unfolding tog using that lw by (simp add: reindexed_nth)
    also have "\<dots> = assigned_index ?vs i"
      using that lw by (intro assigned_index_cong flags dims) simp
    finally show ?thesis using others that by simp
  qed
  from s1 s2 a b c show ?thesis by simp
qed


lemmas registry_defs = add_variable_def add_variable_internal_def new_Function_def clear_def
  emplaced_def register_new_def set_constant_def

lemma two_variables_eval:
  "variables_map two_variables 10 = Some 0" "length (variables two_variables) = 2"
  "map is_constant (variables two_variables) = [False, False]"
  "map global_index (variables two_variables) = [0, 2]"
  "map solver_dimension (variables two_variables) = [2, 3]"
  "number_of_scalars two_variables = 5"
  by (simp_all add: two_variables_def registry_defs)

theorem set_constant_layout_witness:
  "set_constant 10 True two_variables = (None, snd (set_constant 10 True two_variables)) \<and>
   number_of_scalars (snd (set_constant 10 True two_variables)) = 3 \<and>
   map global_index (variables (snd (set_constant 10 True two_variables))) = [3, 0]"
proof -
  have s: "set_constant 10 True two_variables = (None, snd (set_constant 10 True two_variables))"
    by (simp add: two_variables_def registry_defs)
  show ?thesis using set_constant_layout [OF s] s
    by (simp add: two_variables_def registry_defs)
qed

text \<open>
  Claim C7 as stated fails on two registries. When \<open>v\<close> is constant before the first
  call, the second call makes it free and the scalar count grows. When a variable was
  registered after another had been marked constant, the indices are not those of a re-indexing
  pass, and the two calls move the constant variable.
\<close>

theorem toggle_counterexample:
  "number_of_scalars (toggle 10 constant_only) \<noteq> number_of_scalars constant_only \<and>
   variables_map added_after_constant 10 = Some 0 \<and>
   global_index (variables (toggle 20 added_after_constant) ! 0)
     \<noteq> global_index (variables added_after_constant ! 0)"
  by (simp add: constant_only_def added_after_constant_def toggle_def registry_defs)

theorem toggle_restores_witness:
  "number_of_scalars (toggle 10 two_variables) = number_of_scalars two_variables \<and>
   global_index (variables (toggle 10 two_variables) ! 1) = global_index (variables two_variables ! 1)"
proof -
  have k: "variables_map two_variables 10 = Some 0" "0 < length (variables two_variables)"
    and free: "\<not> is_constant (variables two_variables ! 0)"
    and n: "number_of_scalars two_variables = free_scalars (variables two_variables)"
    by (simp_all add: two_variables_def registry_defs)
  have others: "\<forall>i<length (variables two_variables). i \<noteq> 0 \<longrightarrow>
     global_index (variables two_variables ! i) = assigned_index (variables two_variables) i"
  proof (intro allI impI)
    fix i assume "i < length (variables two_variables)" "i \<noteq> 0"
    then have "i = 1" by (simp add: two_variables_eval)
    then show "global_index (variables two_variables ! i) = assigned_index (variables two_variables) i"
      by (simp add: two_variables_def registry_defs assigned_index_def)
  qed
  from toggle_restores [OF k free n others] show ?thesis
    by (simp add: two_variables_eval)
qed

text \<open>
  Claim C9. \<^verbatim>\<open>add_term\<close> with a list of addresses whose length is not the arity of the
  term fails with \<open>ArityMismatch\<close>, and the term registry has the size it had: nothing
  but the flag of the local storage is changed.
\<close>

theorem add_term_arity_mismatch:
  "length arguments \<noteq> number_of_variables t \<Longrightarrow>
     fst (add_term t arguments f) = Some ArityMismatch \<and>
     length (terms (snd (add_term t arguments f))) = length (terms f) \<and>
     snd (add_term t arguments f) = f\<lparr>local_storage_allocated := False\<rparr>"
  by (auto simp: add_term_def)

theorem add_term_arity_mismatch_witness:
  "length [10, 20 :: nat] \<noteq> number_of_variables squares \<and>
   fst (add_term squares [10, 20] new_Function) = Some ArityMismatch \<and>
   length (terms (snd (add_term squares [10, 20] new_Function))) = length (terms new_Function)"
proof -
  have h: "length [10, 20 :: nat] \<noteq> number_of_variables squares" by (simp add: squares_def)
  from add_term_arity_mismatch [OF h, of new_Function] h show ?thesis by simp
qed

lemma add_variable_terms: "terms (snd (add_variable p d f)) = terms f"
  by (simp add: add_variable_def add_variable_internal_def register_new_def Let_def
        split: option.splits)

lemma push_index_butlast:
  "terms f \<noteq> [] \<Longrightarrow> butlast (terms (push_index k f)) = butlast (terms f) \<and> terms (push_index k f) \<noteq> []"
  by (simp add: push_index_def)

lemma bind_arguments_butlast:
  "terms f \<noteq> [] \<Longrightarrow>
     butlast (terms (snd (bind_arguments t arguments vars f))) = butlast (terms f) \<and>
     terms (snd (bind_arguments t arguments vars f)) \<noteq> []"
proof (induction vars arbitrary: f)
  case Nil
  then show ?case by simp
next
  case (Cons var rest)
  show ?case
  proof (cases "length arguments \<le> var")
    case True
    with Cons.prems show ?thesis by simp
  next
    case False
    let ?p = "arguments ! var"
    show ?thesis
    proof (cases "variables_map f ?p")
      case None
      obtain e f1 where a: "add_variable ?p (variable_dimension t var) f = (e, f1)"
        by (cases "add_variable ?p (variable_dimension t var) f")
      then have t1: "terms f1 = terms f"
        using add_variable_terms [of ?p "variable_dimension t var" f] by simp
      show ?thesis
      proof (cases e)
        case (Some err)
        with False None a t1 Cons.prems show ?thesis by simp
      next
        case e: None
        show ?thesis
        proof (cases "variables_map f1 ?p")
          case None
          with False \<open>variables_map f ?p = None\<close> a e t1 Cons.prems show ?thesis by simp
        next
          case (Some k)
          from push_index_butlast [of f1 k] t1 Cons.prems
          have p: "butlast (terms (push_index k f1)) = butlast (terms f)"
            "terms (push_index k f1) \<noteq> []" by simp_all
          from Cons.IH [OF p(2)] p(1) False \<open>variables_map f ?p = None\<close> a e Some
          show ?thesis by simp
        qed
      qed
    next
      case (Some k)
      from push_index_butlast [of f k] Cons.prems
      have p: "butlast (terms (push_index k f)) = butlast (terms f)"
        "terms (push_index k f) \<noteq> []" by simp_all
      from Cons.IH [OF p(2)] p(1) False Some Cons.prems
      show ?thesis by simp
    qed
  qed
qed

text \<open>What the handler of \<^verbatim>\<open>add_term\<close> does restore: the term registry.\<close>

lemma add_term_failure_keeps_terms:
  assumes "fst (add_term t arguments f) = Some e"
  shows "terms (snd (add_term t arguments f)) = terms f"
proof (cases "number_of_variables t = length arguments")
  case False
  then show ?thesis by (simp add: add_term_def)
next
  case True
  let ?a = "\<lparr>the_term = t, added_variables_indices = [], temp_variables = [],
             hessian_blocks = [], hessian = (\<lambda>_ _ _ _. 0)\<rparr>"
  let ?f1 = "f\<lparr>local_storage_allocated := False, terms := terms f @ [?a]\<rparr>"
  let ?r = "bind_arguments t arguments [0..<number_of_variables t] ?f1"
  have "butlast (terms (snd ?r)) = butlast (terms ?f1)"
    by (rule bind_arguments_butlast [THEN conjunct1]) simp
  then have b: "butlast (terms (snd ?r)) = terms f" by simp
  from assms True obtain e' where "fst ?r = Some e'"
    by (cases ?r; cases "fst ?r") (auto simp: add_term_def)
  then have "snd (add_term t arguments f) = (snd ?r)\<lparr>terms := butlast (terms (snd ?r))\<rparr>"
    using True by (cases ?r) (simp add: add_term_def)
  with b show ?thesis by simp
qed

text \<open>
  Claim C3 at a failing call. The registry holds one variable of three scalars at address 20;
  \<^verbatim>\<open>add_term\<close> binds a term of two variables with two scalars each to the addresses 10 and
  20. The first argument is registered, the second fails the dimension check. The term is
  removed again, but the variable at address 10 stays and the scalar count is 5, not 3.
\<close>

theorem add_term_failure_keeps_variable:
  "fst (add_term product [10, 20] three_scalars) = Some DimensionMismatch \<and>
   length (terms (snd (add_term product [10, 20] three_scalars))) = length (terms three_scalars) \<and>
   map user_data (variables three_scalars) = [20] \<and>
   map user_data (variables (snd (add_term product [10, 20] three_scalars))) = [20, 10] \<and>
   number_of_scalars three_scalars = 3 \<and>
   number_of_scalars (snd (add_term product [10, 20] three_scalars)) = 5"
  by (simp add: three_scalars_def registry_defs add_term_def product_def upt_rec push_index_def)

subsection \<open>Evaluation of the value\<close>

lemma for_each_append:
  "for_each (xs @ ys) body s =
     (case for_each xs body s of Inl e \<Rightarrow> Inl e | Inr s' \<Rightarrow> for_each ys body s')"
  by (induction xs arbitrary: s) (auto split: sum.splits)


lemma update_each_map:
  "(\<And>a. a \<in> set xs \<Longrightarrow> body a s = Inr (g a, s)) \<Longrightarrow>
     update_each body xs s = Inr (map g xs, s)"
  by (induction xs) simp_all

lemma fill_loop:
  assumes "d \<le> length ts" and "\<And>i. i < d \<Longrightarrow> \<not> bad i"
  shows "for_each [0..<d]
           (\<lambda>i ts. if length ts \<le> i \<or> bad i then Inl OutOfRange else Inr (ts[i := src i])) ts
         = Inr (map src [0..<d] @ drop d ts)"
  using assms
proof (induction d)
  case 0
  then show ?case by simp
next
  case (Suc d)
  then have IH: "for_each [0..<d]
           (\<lambda>i ts. if length ts \<le> i \<or> bad i then Inl OutOfRange else Inr (ts[i := src i])) ts
         = Inr (map src [0..<d] @ drop d ts)"
    by simp
  from Suc.prems have d: "d < length ts" "\<not> bad d" by simp_all
  have "(map src [0..<d] @ drop d ts)[d := src d] = map src [0..<d] @ (drop d ts)[0 := src d]"
    by (simp add: list_update_append)
  also have "(drop d ts)[0 := src d] = src d # drop (Suc d) ts"
    using d(1) by (simp add: Cons_nth_drop_Suc [symmetric])
  finally show ?case using d by (simp add: for_each_append IH)
qed

lemma copy_to_local_scattered:
  assumes "length (temp_space v) = user_dimension v"
    and "\<not> is_constant v \<Longrightarrow>
           (case change_of_variables v of
              None \<Rightarrow> global_index v + user_dimension v \<le> length x
            | Some c \<Rightarrow> global_index v < length x)"
  shows "copy_to_local mem x v = Inr (v\<lparr>temp_space := scattered mem x v\<rparr>)"
proof (cases "is_constant v")
  case True
  have "for_each [0..<user_dimension v]
          (\<lambda>i ts. if length ts \<le> i \<or> False then Inl OutOfRange
                  else Inr (ts[i := mem (user_data v + i)])) (temp_space v)
        = Inr (map (\<lambda>i. mem (user_data v + i)) [0..<user_dimension v]
                 @ drop (user_dimension v) (temp_space v))"
    by (rule fill_loop) (simp_all add: assms(1))
  with True assms(1) show ?thesis by (simp add: copy_to_local_def scattered_def)
next
  case False
  show ?thesis
  proof (cases "change_of_variables v")
    case None
    with assms(2) False have le: "global_index v + user_dimension v \<le> length x" by simp
    have "for_each [0..<user_dimension v]
          (\<lambda>i ts. if length ts \<le> i \<or> length x \<le> global_index v + i then Inl OutOfRange
                  else Inr (ts[i := x ! (global_index v + i)])) (temp_space v)
        = Inr (map (\<lambda>i. x ! (global_index v + i)) [0..<user_dimension v]
                 @ drop (user_dimension v) (temp_space v))"
      by (rule fill_loop) (use le in \<open>simp_all add: assms(1)\<close>)
    with False None assms(1) show ?thesis by (simp add: copy_to_local_def scattered_def)
  next
    case (Some c)
    with assms(2) False have "global_index v < length x" by simp
    with False Some show ?thesis by (simp add: copy_to_local_def scattered_def)
  qed
qed

lemma copy_global_to_local_scattered:
  assumes "layout_ok f" and "length x = number_of_scalars f"
  shows "copy_global_to_local mem x f =
           Inr (f\<lparr>variables := map (\<lambda>v. v\<lparr>temp_space := scattered mem x v\<rparr>) (variables f)\<rparr>)"
proof -
  have "update_each (\<lambda>var u. map_sum id (\<lambda>var'. (var', u)) (copy_to_local mem x var))
          (variables f) () = Inr (map (\<lambda>v. v\<lparr>temp_space := scattered mem x v\<rparr>) (variables f), ())"
  proof (rule update_each_map)
    fix v assume "v \<in> set (variables f)"
    with assms have "copy_to_local mem x v = Inr (v\<lparr>temp_space := scattered mem x v\<rparr>)"
      by (intro copy_to_local_scattered) (auto simp: layout_ok_def split: option.splits)
    then show "map_sum id (\<lambda>var'. (var', ())) (copy_to_local mem x v)
               = Inr (v\<lparr>temp_space := scattered mem x v\<rparr>, ())"
      by simp
  qed
  then show ?thesis by (simp add: copy_global_to_local_def)
qed

lemma allocate_terms_map:
  "(\<And>a. a \<in> set ts \<Longrightarrow> \<forall>k\<in>set (added_variables_indices a). k < nv) \<Longrightarrow>
   allocate_terms enabled nv ts =
     Inr (map (\<lambda>a. a\<lparr>temp_variables := temp_variables a @ added_variables_indices a,
                      hessian_blocks := (if enabled then block_grid (the_term a)
                                         else hessian_blocks a)\<rparr>) ts)"
proof (induction ts)
  case Nil
  then show ?case by simp
next
  case (Cons a ts)
  then have "\<not> (\<exists>ind\<in>set (added_variables_indices a). nv \<le> ind)" by fastforce
  moreover have "allocate_terms enabled nv ts =
     Inr (map (\<lambda>a. a\<lparr>temp_variables := temp_variables a @ added_variables_indices a,
                      hessian_blocks := (if enabled then block_grid (the_term a)
                                         else hessian_blocks a)\<rparr>) ts)"
    by (rule Cons.IH) (use Cons.prems in auto)
  ultimately show ?case by (simp add: Let_def)
qed

lemma ensure_allocated_ok:
  assumes "bindings_ok f"
  shows "ensure_allocated f = Inr (allocated f)"
proof (cases "local_storage_allocated f")
  case True
  then show ?thesis by (simp add: ensure_allocated_def allocated_def)
next
  case False
  have "allocate_terms (hessian_is_enabled f) (length (variables f)) (terms f) =
     Inr (map (\<lambda>a. a\<lparr>temp_variables := temp_variables a @ added_variables_indices a,
                      hessian_blocks := (if hessian_is_enabled f then block_grid (the_term a)
                                         else hessian_blocks a)\<rparr>) (terms f))"
    by (rule allocate_terms_map) (use assms in \<open>auto simp: bindings_ok_def\<close>)
  with False show ?thesis
    by (simp add: ensure_allocated_def allocated_def allocate_local_storage_def)
qed

lemma allocated_fields [simp]:
  "variables (allocated f) = variables f"
  "the_constant (allocated f) = the_constant f"
  "number_of_scalars (allocated f) = number_of_scalars f"
  "number_of_constants (allocated f) = number_of_constants f"
  "hessian_is_enabled (allocated f) = hessian_is_enabled f"
  "local_storage_allocated (allocated f)"
  "map the_term (terms (allocated f)) = map the_term (terms f)"
  "map added_variables_indices (terms (allocated f)) = map added_variables_indices (terms f)"
  "length (terms (allocated f)) = length (terms f)"
  by (simp_all add: allocated_def comp_def)

lemma allocated_pointers:
  assumes "bindings_ok f" and "a \<in> set (terms (allocated f))"
  shows "take (number_of_variables (the_term a)) (temp_variables a) = added_variables_indices a"
    and "length (added_variables_indices a) = number_of_variables (the_term a)"
    and "\<forall>k\<in>set (added_variables_indices a). k < length (variables f)"
  using assms by (auto simp: bindings_ok_def allocated_def split: if_splits)

lemma arguments_of_ok:
  assumes "take (number_of_variables (the_term a)) (temp_variables a) = added_variables_indices a"
    and "length (added_variables_indices a) = number_of_variables (the_term a)"
    and "\<forall>k\<in>set (added_variables_indices a). k < length (variables f)"
  shows "arguments_of f a =
           Inr (map (\<lambda>p. temp_space (variables f ! p)) (added_variables_indices a))"
  using assms by (auto simp: arguments_of_def Let_def)




lemmas evaluation_defs = evaluate_def evaluate_dense_def evaluate_sparse_def ensure_allocated_def
  allocate_local_storage_def copy_global_to_local_def copy_to_local_def
  evaluate_from_local_storage_def arguments_of_def evaluate_term_def add_gradient_def
  add_gradient_sparse_def dense_hessian_def sparse_hessian_def dense_term_def sparse_term_def
  add_coeff_def entries_def grid_covers_def block_grid_def block_exists_def part_hessian_def
  Let_def

lemmas binding_defs = add_term_def push_index_def

lemma one_variable_eval:
  "variables one_variable = [\<lparr>user_dimension = 2, solver_dimension = 2, user_data = 10,
     global_index = 0, is_constant = False, change_of_variables = None, temp_space = [0, 0]\<rparr>]"
  "terms one_variable = [\<lparr>the_term = squares, added_variables_indices = [0],
     temp_variables = [], hessian_blocks = [], hessian = (\<lambda>_ _ _ _. 0)\<rparr>]"
  "number_of_scalars one_variable = 2" "number_of_constants one_variable = 0"
  "the_constant one_variable = 0" "\<not> local_storage_allocated one_variable"
  "hessian_is_enabled one_variable"
  by (simp_all add: one_variable_def registry_defs binding_defs squares_def upt_rec numeral_2_eq_2)

lemma squares_eval:
  "number_of_variables squares = 1" "variable_dimension squares k = 2"
  "evaluate0 squares a = (a ! 0 ! 0)\<^sup>2 + (a ! 0 ! 1)\<^sup>2"
  "evaluate1 squares a = ((a ! 0 ! 0)\<^sup>2 + (a ! 0 ! 1)\<^sup>2, \<lambda>var i. 2 * (a ! 0 ! i))"
  "evaluate2 squares a = ((a ! 0 ! 0)\<^sup>2 + (a ! 0 ! 1)\<^sup>2, (\<lambda>var i. 2 * (a ! 0 ! i)),
                    (\<lambda>var0 var1 i j. if i = j then 2 else 0))"
  by (simp_all add: squares_def)

lemma replicate_two: "replicate 2 x = [x, x]"
  by (simp add: numeral_2_eq_2)

lemma product_eval:
  "number_of_variables product = 2" "variable_dimension product k = 2"
  "evaluate0 product a = a ! 0 ! 0 * a ! 1 ! 0 + a ! 0 ! 1 * a ! 1 ! 1"
  "evaluate1 product a = (a ! 0 ! 0 * a ! 1 ! 0 + a ! 0 ! 1 * a ! 1 ! 1, \<lambda>var i. a ! (1 - var) ! i)"
  "evaluate2 product a = (a ! 0 ! 0 * a ! 1 ! 0 + a ! 0 ! 1 * a ! 1 ! 1, (\<lambda>var i. a ! (1 - var) ! i),
                    (\<lambda>var0 var1 i j. if var0 \<noteq> var1 \<and> i = j then 1 else 0))"
  by (simp_all add: product_def)



subsection \<open>Dense and sparse Hessian\<close>

lemma for_each_cong:
  "(\<And>i s. i \<in> set xs \<Longrightarrow> f i s = g i s) \<Longrightarrow> for_each xs f s = for_each xs g s"
  by (induction xs arbitrary: s) (simp_all split: sum.splits)

lemma update_each_cong:
  "(\<And>a s. a \<in> set xs \<Longrightarrow> f a s = g a s) \<Longrightarrow> update_each f xs s = update_each g xs s"
  by (induction xs arbitrary: s) (simp_all split: sum.splits prod.splits)

lemma grid_covers_block_grid: "grid_covers (block_grid t) t"
  by (simp add: grid_covers_def block_grid_def block_exists_def list_all_iff)

lemma grid_covers_block:
  assumes "grid_covers grid t"
    and "var0 < number_of_variables t" and "var1 < number_of_variables t"
  shows "block_exists grid var0 var1"
    and "variable_dimension t var0 \<le> fst (grid ! var0 ! var1)"
    and "variable_dimension t var1 \<le> snd (grid ! var0 ! var1)"
  using assms by (auto simp: grid_covers_def list_all_iff)

lemma part_hessian_read:
  assumes "grid_covers (hessian_blocks a) (the_term a)"
    and "var0 < number_of_variables (the_term a)" and "var1 < number_of_variables (the_term a)"
    and "i < variable_dimension (the_term a) var0" and "j < variable_dimension (the_term a) var1"
  shows "part_hessian a var0 var1 i j = Inr (hessian a var0 var1 i j)"
  using grid_covers_block [OF assms(1-3)] assms(4,5) by (simp add: part_hessian_def)

lemma for_each_read:
  assumes "\<And>i j. i < d0 \<Longrightarrow> j < d1 \<Longrightarrow> rd i j = Inr (h i j)"
  shows "for_each [0..<d0]
           (\<lambda>i s. for_each [0..<d1]
                    (\<lambda>j s. case rd i j of Inl e \<Rightarrow> Inl e | Inr c \<Rightarrow> body i j c s) s) s
         = for_each [0..<d0] (\<lambda>i s. for_each [0..<d1] (\<lambda>j s. body i j (h i j) s) s) s"
  by (intro for_each_cong) (simp add: assms)

lemma for_each_invariant:
  assumes "P s" and "\<And>i s. i \<in> set xs \<Longrightarrow> P s \<Longrightarrow> \<exists>s'. body i s = Inr s' \<and> P s'"
  shows "\<exists>s'. for_each xs body s = Inr s' \<and> P s'"
  using assms
proof (induction xs arbitrary: s)
  case Nil
  then show ?case by simp
next
  case (Cons i xs)
  from Cons.prems obtain s1 where s1: "body i s = Inr s1" "P s1" by (meson list.set_intros(1))
  have "\<exists>s'. for_each xs body s1 = Inr s' \<and> P s'"
    by (rule Cons.IH [OF s1(2)]) (use Cons.prems(2) in auto)
  with s1 show ?case by simp
qed

lemma update_each_invariant:
  assumes "P s"
    and "\<And>a s. a \<in> set xs \<Longrightarrow> P s \<Longrightarrow> \<exists>a' s'. body a s = Inr (a', s') \<and> Q a a' \<and> P s'"
  shows "\<exists>xs' s'. update_each body xs s = Inr (xs', s') \<and> list_all2 Q xs xs' \<and> P s'"
  using assms
proof (induction xs arbitrary: s)
  case Nil
  then show ?case by simp
next
  case (Cons a xs)
  from Cons.prems obtain a1 s1 where s1: "body a s = Inr (a1, s1)" "Q a a1" "P s1"
    by (meson list.set_intros(1))
  have "\<exists>xs' s'. update_each body xs s1 = Inr (xs', s') \<and> list_all2 Q xs xs' \<and> P s'"
    by (rule Cons.IH [OF s1(3)]) (use Cons.prems(2) in auto)
  with s1 show ?case by auto
qed


lemma sparse_coeff_Nil [simp]: "sparse_coeff [] i j = 0"
  by (simp add: sparse_coeff_def)







lemma prepared_ok:
  assumes "layout_ok f" and "bindings_ok f" and "length x = number_of_scalars f"
  shows "ensure_allocated f = Inr (allocated f)"
    and "copy_global_to_local mem x (allocated f) = Inr (prepared mem x f)"
proof -
  show "ensure_allocated f = Inr (allocated f)" by (rule ensure_allocated_ok [OF assms(2)])
  have l1: "layout_ok (allocated f)"
    using assms(1) by (auto simp: layout_ok_def split: option.splits)
  show "copy_global_to_local mem x (allocated f) = Inr (prepared mem x f)"
    using copy_global_to_local_scattered [OF l1, of x mem] assms(3)
    by (simp add: prepared_def)
qed

lemma prepared_fields [simp]:
  "terms (prepared mem x f) = terms (allocated f)"
  "the_constant (prepared mem x f) = the_constant f"
  "number_of_scalars (prepared mem x f) = number_of_scalars f"
  "number_of_constants (prepared mem x f) = number_of_constants f"
  "thread_gradient_storage (prepared mem x f) = thread_gradient_storage (allocated f)"
  "local_storage_allocated (prepared mem x f)"
  "length (variables (prepared mem x f)) = length (variables f)"
  by (simp_all add: prepared_def)

lemma prepared_variable [simp]:
  assumes "k < length (variables f)"
  shows "is_constant (variables (prepared mem x f) ! k) = is_constant (variables f ! k)"
    and "global_index (variables (prepared mem x f) ! k) = global_index (variables f ! k)"
    and "user_dimension (variables (prepared mem x f) ! k) = user_dimension (variables f ! k)"
    and "change_of_variables (variables (prepared mem x f) ! k) = change_of_variables (variables f ! k)"
    and "temp_space (variables (prepared mem x f) ! k) = scattered mem x (variables f ! k)"
  using assms by (simp_all add: prepared_def)

lemma accumulate_ok:
  assumes "off + d \<le> length st"
  shows "\<exists>st'. for_each [0..<d]
            (\<lambda>i st. if length st \<le> off + i then Inl OutOfRange
                    else Inr (st[off + i := st ! (off + i) + g i])) st = Inr st' \<and>
          length st' = length st"
  by (rule for_each_invariant [where P = "\<lambda>s. length s = length st"]) (use assms in auto)




lemma list_all2_same_binding:
  assumes "list_all2 same_binding ts ts'" and "a' \<in> set ts'"
  shows "\<exists>a\<in>set ts. same_binding a a'"
  using assms by (metis in_set_conv_nth list_all2_conv_all_nth)

lemma allocated_origin:
  assumes "a \<in> set (terms (allocated f))"
  shows "\<exists>a0\<in>set (terms f).
           the_term a = the_term a0 \<and> added_variables_indices a = added_variables_indices a0"
  using assms by (auto simp: allocated_def split: if_splits)

lemma allocated_blocks:
  assumes "hessian_is_enabled f" and "blocks_ok f" and "a \<in> set (terms (allocated f))"
  shows "grid_covers (hessian_blocks a) (the_term a)"
  using assms by (auto simp: allocated_def blocks_ok_def grid_covers_block_grid split: if_splits)

lemma same_binding_grid:
  assumes "same_binding a a'" and "grid_covers (hessian_blocks a) (the_term a)"
  shows "grid_covers (hessian_blocks a') (the_term a')"
  using assms by (simp add: same_binding_def)

lemma allocated_storage:
  assumes "dimensions_ok f"
  shows "length (thread_gradient_storage (allocated f)) = number_of_scalars f + number_of_constants f"
  using assms by (simp add: allocated_def dimensions_ok_def)


lemma for_each_refuses:
  assumes "P s"
    and "\<And>i s. i \<in> set xs \<Longrightarrow> P s \<Longrightarrow> (\<exists>s'. body i s = Inr s' \<and> P s') \<or> body i s = Inl e"
  shows "(\<exists>s'. for_each xs body s = Inr s' \<and> P s') \<or> for_each xs body s = Inl e"
  using assms
proof (induction xs arbitrary: s)
  case Nil
  then show ?case by simp
next
  case (Cons i xs)
  from Cons.prems(2) [OF _ Cons.prems(1), of i]
  consider s1 where "body i s = Inr s1" "P s1" | "body i s = Inl e" by auto
  then show ?case
  proof cases
    case 1
    have "(\<exists>s'. for_each xs body s1 = Inr s' \<and> P s') \<or> for_each xs body s1 = Inl e"
      by (rule Cons.IH [OF 1(2)]) (use Cons.prems(2) in auto)
    with 1 show ?thesis by simp
  next
    case 2
    then show ?thesis by simp
  qed
qed

lemma for_each_refused:
  assumes "P s"
    and "\<And>i s. i \<in> set xs \<Longrightarrow> P s \<Longrightarrow> (\<exists>s'. body i s = Inr s' \<and> P s') \<or> body i s = Inl e"
    and "b \<in> set xs" and "\<And>s. P s \<Longrightarrow> body b s = Inl e"
  shows "for_each xs body s = Inl e"
  using assms(1,2,3)
proof (induction xs arbitrary: s)
  case Nil
  then show ?case by simp
next
  case (Cons i xs)
  from Cons.prems(2) [OF _ Cons.prems(1), of i]
  consider s1 where "body i s = Inr s1" "P s1" | "body i s = Inl e" by auto
  then show ?case
  proof cases
    case 1
    with assms(4) [OF Cons.prems(1)] have "b \<noteq> i" by auto
    with Cons.prems(3) have b: "b \<in> set xs" by simp
    have "for_each xs body s1 = Inl e"
      by (rule Cons.IH [OF 1(2) _ b]) (use Cons.prems(2) in auto)
    with 1 show ?thesis by simp
  next
    case 2
    then show ?thesis by simp
  qed
qed

lemma update_each_refused:
  assumes "P s"
    and "\<And>a s. a \<in> set xs \<Longrightarrow> P s \<Longrightarrow>
           (\<exists>a' s'. body a s = Inr (a', s') \<and> P s') \<or> body a s = Inl e"
    and "b \<in> set xs" and "\<And>s. P s \<Longrightarrow> body b s = Inl e"
  shows "update_each body xs s = Inl e"
  using assms(1,2,3)
proof (induction xs arbitrary: s)
  case Nil
  then show ?case by simp
next
  case (Cons a xs)
  from Cons.prems(2) [OF _ Cons.prems(1), of a]
  consider a1 s1 where "body a s = Inr (a1, s1)" "P s1" | "body a s = Inl e" by auto
  then show ?case
  proof cases
    case 1
    with assms(4) [OF Cons.prems(1)] have "b \<noteq> a" by auto
    with Cons.prems(3) have b: "b \<in> set xs" by simp
    have "update_each body xs s1 = Inl e"
      by (rule Cons.IH [OF 1(2) _ b]) (use Cons.prems(2) in auto)
    with 1 show ?thesis by simp
  next
    case 2
    then show ?thesis by simp
  qed
qed

lemma add_gradient_sparse_refuses:
  assumes t: "term_inside f n a" and n: "n \<le> length storage"
  shows "(\<exists>st'. add_gradient_sparse f (added_variables_indices a) scratch storage = Inr st' \<and>
            length st' = length storage) \<or>
         add_gradient_sparse f (added_variables_indices a) scratch storage
           = Inl UnsupportedOperation"
    and "offending f a \<Longrightarrow>
         add_gradient_sparse f (added_variables_indices a) scratch storage
           = Inl UnsupportedOperation"
proof -
  let ?idx = "added_variables_indices a"
  let ?body = "\<lambda>var st.
          if length (variables f) \<le> ?idx ! var then Inl OutOfRange
          else
            let v = variables f ! (?idx ! var) in
            if \<not> is_constant v then
              (case change_of_variables v of
                 Some c \<Rightarrow> Inl UnsupportedOperation
               | None \<Rightarrow>
                   for_each [0..<user_dimension v]
                     (\<lambda>i st. if length st \<le> global_index v + i then Inl OutOfRange
                             else Inr (st[global_index v + i :=
                                          st ! (global_index v + i) + scratch var i]))
                     st)
            else Inr st"
  have step: "(\<exists>s'. ?body var st = Inr s' \<and> length s' = length storage)
                \<or> ?body var st = Inl UnsupportedOperation"
    if v: "var \<in> set [0..<length ?idx]" and l: "length st = length storage" for var and st :: "real list"
  proof -
    let ?v = "variables f ! (?idx ! var)"
    from v t have r: "?idx ! var < length (variables f)" by (simp add: term_inside_def)
    show ?thesis
    proof (cases "is_constant ?v")
      case True
      with r l show ?thesis by (simp add: Let_def)
    next
      case False
      show ?thesis
      proof (cases "change_of_variables ?v")
        case None
        from v t False None have "global_index ?v + user_dimension ?v \<le> n"
          by (auto simp: term_inside_def)
        with n l have b: "global_index ?v + user_dimension ?v \<le> length st" by simp
        from accumulate_ok [OF b, of "scratch var"] False None r l
        show ?thesis by (simp add: Let_def)
      next
        case (Some c)
        with False r show ?thesis by (simp add: Let_def)
      qed
    qed
  qed
  show "(\<exists>st'. add_gradient_sparse f ?idx scratch storage = Inr st' \<and>
            length st' = length storage) \<or>
         add_gradient_sparse f ?idx scratch storage = Inl UnsupportedOperation"
    unfolding add_gradient_sparse_def
    by (rule for_each_refuses [where P = "\<lambda>s. length s = length storage"]) (simp, rule step)
  assume "offending f a"
  then obtain var where var: "var < length ?idx" "\<not> is_constant (variables f ! (?idx ! var))"
    "change_of_variables (variables f ! (?idx ! var)) \<noteq> None"
    by (auto simp: offending_def)
  from var(1) t have r: "?idx ! var < length (variables f)" by (simp add: term_inside_def)
  have bad: "?body var st = Inl UnsupportedOperation" for st
    using var r by (auto simp: Let_def)
  show "add_gradient_sparse f ?idx scratch storage = Inl UnsupportedOperation"
    unfolding add_gradient_sparse_def
  proof (rule for_each_refused [where P = "\<lambda>s. length s = length storage" and b = var])
    show "length storage = length storage" ..
    show "var \<in> set [0..<length ?idx]" using var(1) by simp
    show "\<And>s. length s = length storage \<Longrightarrow> ?body var s = Inl UnsupportedOperation"
      by (rule bad)
    show "\<And>i s. i \<in> set [0..<length ?idx] \<Longrightarrow> length s = length storage \<Longrightarrow>
       (\<exists>s'. ?body i s = Inr s' \<and> length s' = length storage) \<or> ?body i s = Inl UnsupportedOperation"
      by (rule step)
  qed
qed

lemma evaluate_terms_sparse_refused:
  assumes args: "\<And>a. a \<in> set ts \<Longrightarrow> \<exists>as. arguments_of f a = Inr as"
    and inside: "\<And>a. a \<in> set ts \<Longrightarrow> term_inside f n a"
    and bad: "b \<in> set ts" "offending f b"
    and "n \<le> length st0"
  shows "update_each (evaluate_term True (add_gradient_sparse f) f) ts (c, st0)
           = Inl UnsupportedOperation"
proof (rule update_each_refused [where P = "\<lambda>s. length (snd s) = length st0" and b = b])
  show "length (snd (c, st0)) = length st0" by simp
  show "b \<in> set ts" by fact
next
  fix a and s :: "real \<times> real list"
  assume a: "a \<in> set ts" and s: "length (snd s) = length st0"
  obtain v st where vs: "s = (v, st)" by (cases s)
  from args [OF a] obtain as where as: "arguments_of f a = Inr as" ..
  obtain v' g h where e: "evaluate2 (the_term a) as = (v', g, h)"
    by (cases "evaluate2 (the_term a) as")
  from inside [OF a] have grid: "grid_covers (hessian_blocks a) (the_term a)"
    by (simp add: term_inside_def)
  from s vs assms(5) have n: "n \<le> length st" by simp
  from add_gradient_sparse_refuses(1) [OF inside [OF a] n, of g]
  show "(\<exists>a' s'. evaluate_term True (add_gradient_sparse f) f a s = Inr (a', s') \<and>
            length (snd s') = length st0) \<or>
        evaluate_term True (add_gradient_sparse f) f a s = Inl UnsupportedOperation"
    using as e s vs grid by (auto simp: evaluate_term_def)
next
  fix s :: "real \<times> real list"
  assume s: "length (snd s) = length st0"
  obtain v st where vs: "s = (v, st)" by (cases s)
  from args [OF bad(1)] obtain as where as: "arguments_of f b = Inr as" ..
  obtain v' g h where e: "evaluate2 (the_term b) as = (v', g, h)"
    by (cases "evaluate2 (the_term b) as")
  from inside [OF bad(1)] have grid: "grid_covers (hessian_blocks b) (the_term b)"
    by (simp add: term_inside_def)
  from s vs assms(5) have n: "n \<le> length st" by simp
  from add_gradient_sparse_refuses(2) [OF inside [OF bad(1)] n bad(2), of g]
  show "evaluate_term True (add_gradient_sparse f) f b s = Inl UnsupportedOperation"
    using as e vs grid by (simp add: evaluate_term_def)
qed

lemma overwrite_length: "off \<le> length st \<Longrightarrow> length (overwrite off new st) = length st"
  by (simp add: overwrite_def)

lemma add_gradient_ok:
  assumes t: "term_inside f n a" and n: "n \<le> length storage"
    and ns: "number_of_scalars f \<le> length storage" "number_of_scalars f \<le> length x"
  shows "\<exists>st'. add_gradient x f (added_variables_indices a) scratch storage = Inr st' \<and>
           length st' = length storage"
  unfolding add_gradient_def
proof (rule for_each_invariant [where P = "\<lambda>s. length s = length storage"])
  show "length storage = length storage" ..
next
  fix var and st :: "real list"
  let ?idx = "added_variables_indices a"
  assume v: "var \<in> set [0..<length ?idx]" and l: "length st = length storage"
  let ?v = "variables f ! (?idx ! var)"
  from v t have r: "?idx ! var < length (variables f)" by (simp add: term_inside_def)
  show "\<exists>s'. (if length (variables f) \<le> ?idx ! var then Inl OutOfRange
          else
            let v = variables f ! (?idx ! var) in
            if \<not> is_constant v then
              (case change_of_variables v of
                 None \<Rightarrow>
                   for_each [0..<user_dimension v]
                     (\<lambda>i st. if length st \<le> global_index v + i then Inl OutOfRange
                             else Inr (st[global_index v + i :=
                                          st ! (global_index v + i) + scratch var i]))
                     st
               | Some c \<Rightarrow>
                   if global_index v < number_of_scalars f then
                     (if length st \<le> global_index v \<or> length x \<le> global_index v
                      then Inl OutOfRange
                      else Inr (overwrite (global_index v)
                                  (update_gradient c (drop (global_index v) st)
                                     (drop (global_index v) x) (scratch var)) st))
                   else Inr st)
            else Inr st) = Inr s' \<and> length s' = length storage"
  proof (cases "is_constant ?v")
    case True
    with r l show ?thesis by (simp add: Let_def)
  next
    case False
    show ?thesis
    proof (cases "change_of_variables ?v")
      case None
      from v t False None have "global_index ?v + user_dimension ?v \<le> n"
        by (auto simp: term_inside_def)
      with n l have b: "global_index ?v + user_dimension ?v \<le> length st" by simp
      from accumulate_ok [OF b, of "scratch var"] False None r l
      show ?thesis by (simp add: Let_def)
    next
      case (Some c)
      with False r l ns show ?thesis by (auto simp: Let_def overwrite_length)
    qed
  qed
qed

lemma evaluate_terms_dense_ok:
  assumes args: "\<And>a. a \<in> set ts \<Longrightarrow> \<exists>as. arguments_of f a = Inr as"
    and inside: "\<And>a. a \<in> set ts \<Longrightarrow> term_inside f n a"
    and "length st0 = m" "n \<le> m" "number_of_scalars f \<le> m" "number_of_scalars f \<le> length x"
  shows "\<exists>ts' s'. update_each (evaluate_term True (add_gradient x f) f) ts (c, st0)
                    = Inr (ts', s') \<and>
           list_all2 same_binding ts ts' \<and> length (snd s') = m"
proof (rule update_each_invariant [where P = "\<lambda>s. length (snd s) = m"])
  show "length (snd (c, st0)) = m" using assms(3) by simp
next
  fix a and s :: "real \<times> real list"
  assume a: "a \<in> set ts" and s: "length (snd s) = m"
  obtain v st where vs: "s = (v, st)" by (cases s)
  from args [OF a] obtain as where as: "arguments_of f a = Inr as" ..
  obtain v' g h where e: "evaluate2 (the_term a) as = (v', g, h)"
    by (cases "evaluate2 (the_term a) as")
  from inside [OF a] have grid: "grid_covers (hessian_blocks a) (the_term a)"
    by (simp add: term_inside_def)
  have "\<exists>st'. add_gradient x f (added_variables_indices a) g st = Inr st' \<and>
           length st' = length st"
    by (rule add_gradient_ok [OF inside [OF a]]) (use assms(4-6) s vs in auto)
  then obtain st' where st': "add_gradient x f (added_variables_indices a) g st = Inr st'"
    "length st' = length st" by blast
  show "\<exists>a' s'. evaluate_term True (add_gradient x f) f a s = Inr (a', s') \<and>
          same_binding a a' \<and> length (snd s') = m"
    using as e st' s vs grid by (simp add: evaluate_term_def same_binding_def)
qed

lemma dense_block_ok:
  assumes "rows H = n \<and> cols H = n" and "r0 + d0 \<le> n" and "c0 + d1 \<le> n"
  shows "\<exists>H'.
     for_each [0..<d0] (\<lambda>i H. for_each [0..<d1] (\<lambda>j H. add_coeff (i + r0) (j + c0) (h i j) H) H) H
       = Inr H' \<and> rows H' = n \<and> cols H' = n"
proof (rule for_each_invariant [where P = "\<lambda>H. rows H = n \<and> cols H = n", OF assms(1)])
  fix i and H :: matrix
  assume i: "i \<in> set [0..<d0]" and H: "rows H = n \<and> cols H = n"
  show "\<exists>H'. for_each [0..<d1] (\<lambda>j H. add_coeff (i + r0) (j + c0) (h i j) H) H = Inr H' \<and>
          rows H' = n \<and> cols H' = n"
  proof (rule for_each_invariant [where P = "\<lambda>H. rows H = n \<and> cols H = n", OF H])
    fix j and H :: matrix
    assume "j \<in> set [0..<d1]" and "rows H = n \<and> cols H = n"
    with i assms(2,3)
    show "\<exists>H'. add_coeff (i + r0) (j + c0) (h i j) H = Inr H' \<and> rows H' = n \<and> cols H' = n"
      by (simp add: add_coeff_def)
  qed
qed

lemma for_each_errors:
  assumes "\<And>i s e. i \<in> set xs \<Longrightarrow> body i s = Inl e \<Longrightarrow> E e"
  shows "for_each xs body s = Inl e \<Longrightarrow> E e"
  using assms
proof (induction xs arbitrary: s)
  case Nil
  then show ?case by simp
next
  case (Cons i xs)
  show ?case
  proof (cases "body i s")
    case (Inl e')
    with Cons.prems(1) have "e' = e" by simp
    with Inl Cons.prems(2) [of i s e] show ?thesis by simp
  next
    case (Inr s1)
    with Cons.prems(1) have "for_each xs body s1 = Inl e" by simp
    then show ?thesis by (rule Cons.IH) (use Cons.prems(2) in auto)
  qed
qed

lemma dense_term_rows:
  "dense_term f a H = for_each [0..<number_of_variables (the_term a)] (dense_row f a) H"
  unfolding dense_term_def dense_row_def dense_block_def Let_def by (rule refl)

lemma for_each_pairs:
  "for_each (map (Pair a) ys) (\<lambda>r. body (fst r) (snd r)) s = for_each ys (body a) s"
  by (induction ys arbitrary: s) (simp_all split: sum.splits)

lemma for_each_concat:
  "for_each (concat (map (\<lambda>a. map (Pair a) (g a)) xs)) (\<lambda>r. body (fst r) (snd r)) s
   = for_each xs (\<lambda>a. for_each (g a) (body a)) s"
  by (induction xs arbitrary: s) (simp_all add: for_each_append for_each_pairs split: sum.splits)

lemma for_each_first:
  assumes "P s" and "xs = pre @ b # post"
    and "\<And>i s. i \<in> set pre \<Longrightarrow> P s \<Longrightarrow> \<exists>s'. body i s = Inr s' \<and> P s'"
    and "\<And>s. P s \<Longrightarrow> body b s = Inl e"
  shows "for_each xs body s = Inl e"
proof -
  from for_each_invariant [where P = P and xs = pre and body = body, OF assms(1) assms(3)]
  obtain s' where "for_each pre body s = Inr s'" "P s'" by blast
  with assms(2,4) show ?thesis by (simp add: for_each_append)
qed

lemma for_each_preserves:
  assumes "for_each xs body s = Inr s'" and "P s"
    and "\<And>i s s'. i \<in> set xs \<Longrightarrow> P s \<Longrightarrow> body i s = Inr s' \<Longrightarrow> P s'"
  shows "P s'"
  using assms
proof (induction xs arbitrary: s)
  case Nil
  then show ?case by simp
next
  case (Cons i xs)
  from Cons.prems(1) obtain s1 where s1: "body i s = Inr s1" "for_each xs body s1 = Inr s'"
    by (auto split: sum.splits)
  from Cons.prems(3) [OF _ Cons.prems(2) s1(1)] have "P s1" by simp
  show ?case by (rule Cons.IH [OF s1(2) \<open>P s1\<close>]) (use Cons.prems(3) in auto)
qed

lemma for_each_never_inv:
  assumes "P s"
    and "\<And>i s s'. i \<in> set xs \<Longrightarrow> P s \<Longrightarrow> body i s = Inr s' \<Longrightarrow> P s'"
    and "b \<in> set xs" and "\<And>s. P s \<Longrightarrow> \<exists>e. body b s = Inl e"
  shows "\<exists>e. for_each xs body s = Inl e"
  using assms(1,2,3)
proof (induction xs arbitrary: s)
  case Nil
  then show ?case by simp
next
  case (Cons i xs)
  show ?case
  proof (cases "body i s")
    case (Inl e)
    then show ?thesis by simp
  next
    case (Inr s1)
    with assms(4) [OF Cons.prems(1)] have "b \<noteq> i" by auto
    with Cons.prems(3) have b: "b \<in> set xs" by simp
    from Cons.prems(2) [OF _ Cons.prems(1) Inr] have "P s1" by simp
    have "\<exists>e. for_each xs body s1 = Inl e"
      by (rule Cons.IH [OF \<open>P s1\<close> _ b]) (use Cons.prems(2) in auto)
    with Inr show ?thesis by simp
  qed
qed


lemma add_coeff_size:
  "add_coeff r c v H = Inr H' \<Longrightarrow> rows H' = rows H \<and> cols H' = cols H"
  by (auto simp: add_coeff_def split: if_splits)

lemma block_loops_size:
  assumes "for_each xs
             (\<lambda>i H. for_each ys
                      (\<lambda>j H. case rd i j of Inl e \<Rightarrow> Inl e | Inr c \<Rightarrow> add_coeff (r i) (k j) c H)
                      H)
             H = Inr H'"
    and "rows H = n \<and> cols H = n"
  shows "rows H' = n \<and> cols H' = n"
proof (rule for_each_preserves [where P = "\<lambda>H. rows H = n \<and> cols H = n", OF assms])
  fix i and H H' :: matrix
  assume H: "rows H = n \<and> cols H = n"
    and e: "for_each ys
              (\<lambda>j H. case rd i j of Inl e \<Rightarrow> Inl e | Inr c \<Rightarrow> add_coeff (r i) (k j) c H) H
            = Inr H'"
  show "rows H' = n \<and> cols H' = n"
  proof (rule for_each_preserves [where P = "\<lambda>H. rows H = n \<and> cols H = n", OF e H])
    fix j and H H' :: matrix
    assume "rows H = n \<and> cols H = n"
      and "(case rd i j of Inl e \<Rightarrow> Inl e | Inr c \<Rightarrow> add_coeff (r i) (k j) c H) = Inr H'"
    then show "rows H' = n \<and> cols H' = n"
      by (auto split: sum.splits dest: add_coeff_size)
  qed
qed

lemma dense_block_size:
  assumes "dense_block f a var0 var1 H = Inr H'" and "rows H = n \<and> cols H = n"
  shows "rows H' = n \<and> cols H' = n"
  using assms unfolding dense_block_def
  by (auto split: if_splits dest: block_loops_size)

lemma block_loops_errors:
  assumes "for_each xs
             (\<lambda>i H. for_each ys
                      (\<lambda>j H. case part_hessian a var0 var1 i j of
                                Inl e \<Rightarrow> Inl e
                              | Inr c \<Rightarrow> add_coeff (r i) (k j) c H)
                      H)
             H = Inl e"
  shows "e = OutOfRange"
  using assms
  apply (rule for_each_errors [where E = "\<lambda>e. e = OutOfRange", rotated])
  apply (erule for_each_errors [where E = "\<lambda>e. e = OutOfRange", rotated])
  apply (auto simp: add_coeff_def part_hessian_def split: if_splits sum.splits)
  done

lemma dense_block_errors:
  assumes "dense_block f a var0 var1 H = Inl e"
  shows "e = OutOfRange"
  using assms unfolding dense_block_def
  by (auto split: if_splits dest: block_loops_errors)

lemma dense_row_ok:
  assumes t: "term_inside f n a" and v0: "var0 < number_of_variables (the_term a)"
    and H: "rows H = n \<and> cols H = n"
    and nr: "\<not> refused_row f (added_variables_indices a, var0)"
    and ri: "row_inside f n (added_variables_indices a, var0)"
  shows "\<exists>H'. dense_row f a var0 H = Inr H' \<and> rows H' = n \<and> cols H' = n"
proof -
  let ?idx = "added_variables_indices a"
  let ?t = "the_term a"
  let ?N = "number_of_variables ?t"
  let ?gi = "\<lambda>var. global_index (variables f ! (?idx ! var))"
  from t have g: "grid_covers (hessian_blocks a) ?t" and len: "length ?idx = ?N"
    by (simp_all add: term_inside_def)
  have rng: "?idx ! var < length (variables f)"
    and dim: "variable_dimension ?t var = user_dimension (variables f ! (?idx ! var))"
    if "var < ?N" for var
    using t that by (simp_all add: term_inside_def)
  show ?thesis
  proof (cases "is_constant (variables f ! (?idx ! var0))")
    case True
    with v0 len rng [OF v0] H show ?thesis by (simp add: dense_row_def)
  next
    case False
    with nr have c0: "change_of_variables (variables f ! (?idx ! var0)) = None"
      by (simp add: refused_row_def)
    from t v0 False c0 have b0: "?gi var0 + variable_dimension ?t var0 \<le> n"
      by (auto simp: term_inside_def)
    have step: "\<exists>H'. dense_block f a var0 var1 H = Inr H' \<and> rows H' = n \<and> cols H' = n"
      if "var1 \<in> set [0..<?N]" "rows H = n \<and> cols H = n" for var1 and H :: matrix
    proof (cases "is_constant (variables f ! (?idx ! var1))")
      case True
      with that rng [of var1] len show ?thesis by (simp add: dense_block_def)
    next
      case f1: False
      from that(1) have v1: "var1 < ?N" by simp
      note be = grid_covers_block(1) [OF g v0 v1]
      show ?thesis
      proof (cases "user_dimension (variables f ! (?idx ! var0)) = 0")
        case True
        with dim [OF v0] f1 rng [OF v1] v1 len be that(2) show ?thesis
          by (simp add: dense_block_def)
      next
        case nz: False
        from v1 len have "?idx ! var1 \<in> set ?idx" by simp
        with ri False nz f1
        have "?gi var1 + user_dimension (variables f ! (?idx ! var1)) \<le> n"
          by (auto simp: row_inside_def)
        with dim [OF v1] have b1: "?gi var1 + variable_dimension ?t var1 \<le> n" by simp
        have "\<exists>H'. for_each [0..<variable_dimension ?t var0]
                 (\<lambda>i H. for_each [0..<variable_dimension ?t var1]
                          (\<lambda>j H. case part_hessian a var0 var1 i j of
                                    Inl e \<Rightarrow> Inl e
                                  | Inr c \<Rightarrow> add_coeff (i + ?gi var0) (j + ?gi var1) c H)
                          H)
                 H = Inr H' \<and> rows H' = n \<and> cols H' = n"
          by (simp only: for_each_read [OF part_hessian_read [OF g v0 v1]]
                dense_block_ok [OF that(2) b0 b1])
        with f1 rng [OF v1] v1 len be show ?thesis by (simp add: dense_block_def)
      qed
    qed
    have "\<exists>H'. for_each [0..<?N] (dense_block f a var0) H = Inr H' \<and> rows H' = n \<and> cols H' = n"
      by (rule for_each_invariant [where P = "\<lambda>H. rows H = n \<and> cols H = n", OF H]) (rule step)
    with False c0 v0 len rng [OF v0] show ?thesis by (simp add: dense_row_def)
  qed
qed

lemma dense_row_refused:
  assumes t: "term_inside f n a" and v0: "var0 < number_of_variables (the_term a)"
    and r: "refused_row f (added_variables_indices a, var0)"
  shows "dense_row f a var0 H = Inl UnsupportedOperation"
  using assms by (auto simp: dense_row_def refused_row_def term_inside_def)

lemma dense_row_outside:
  assumes t: "term_inside f n a" and v0: "var0 < number_of_variables (the_term a)"
    and H: "rows H = n \<and> cols H = n"
    and nr: "\<not> refused_row f (added_variables_indices a, var0)"
    and ro: "\<not> row_inside f n (added_variables_indices a, var0)"
  shows "dense_row f a var0 H = Inl OutOfRange"
proof -
  let ?idx = "added_variables_indices a"
  let ?t = "the_term a"
  let ?N = "number_of_variables ?t"
  let ?gi = "\<lambda>var. global_index (variables f ! (?idx ! var))"
  let ?P = "\<lambda>H :: matrix. rows H = n \<and> cols H = n"
  from t have g: "grid_covers (hessian_blocks a) ?t" and len: "length ?idx = ?N"
    by (simp_all add: term_inside_def)
  have rng: "?idx ! var < length (variables f)"
    and dim: "variable_dimension ?t var = user_dimension (variables f ! (?idx ! var))"
    if "var < ?N" for var
    using t that by (simp_all add: term_inside_def)
  from ro have f0: "\<not> is_constant (variables f ! (?idx ! var0))"
    and nz: "user_dimension (variables f ! (?idx ! var0)) \<noteq> 0"
    by (simp_all add: row_inside_def)
  from ro obtain k1 where k1: "k1 \<in> set ?idx" "\<not> is_constant (variables f ! k1)"
    "\<not> global_index (variables f ! k1) + user_dimension (variables f ! k1) \<le> n"
    by (auto simp: row_inside_def)
  from k1(1) obtain var1 where v1: "var1 < length ?idx" "?idx ! var1 = k1"
    by (auto simp: in_set_conv_nth)
  from v1 len have v1N: "var1 < ?N" by simp
  from f0 nr have c0: "change_of_variables (variables f ! (?idx ! var0)) = None"
    by (simp add: refused_row_def)
  from t v1N k1(2,3) v1(2) have lt: "?gi var1 < n"
    by (auto simp: term_inside_def split: option.splits)
  let ?j = "n - ?gi var1"
  from k1(3) v1(2) dim [OF v1N] lt have j: "?j < variable_dimension ?t var1" "?j + ?gi var1 = n"
    by simp_all
  from nz dim [OF v0] have i: "0 < variable_dimension ?t var0" by simp
  note be = grid_covers_block(1) [OF g v0 v1N]
  let ?inner = "\<lambda>i H. for_each [0..<variable_dimension ?t var1]
                          (\<lambda>j H. case part_hessian a var0 var1 i j of
                                    Inl e \<Rightarrow> Inl e
                                  | Inr c \<Rightarrow> add_coeff (i + ?gi var0) (j + ?gi var1) c H)
                          H"
  have inner: "\<exists>e. ?inner i H = Inl e" if "?P H" for i and H :: matrix
  proof (rule for_each_never_inv [where P = ?P and b = ?j, OF that])
    show "?j \<in> set [0..<variable_dimension ?t var1]" using j(1) by simp
  next
    fix s :: matrix assume "?P s"
    with j(2) show "\<exists>e. (case part_hessian a var0 var1 i ?j of
                      Inl e \<Rightarrow> Inl e
                    | Inr c \<Rightarrow> add_coeff (i + ?gi var0) (?j + ?gi var1) c s) = Inl e"
      by (simp add: add_coeff_def split: sum.splits)
  next
    fix j and s s' :: matrix
    assume "?P s" and "(case part_hessian a var0 var1 i j of
                      Inl e \<Rightarrow> Inl e
                    | Inr c \<Rightarrow> add_coeff (i + ?gi var0) (j + ?gi var1) c s) = Inr s'"
    then show "?P s'" by (auto split: sum.splits dest: add_coeff_size)
  qed
  have block: "\<exists>e. dense_block f a var0 var1 H = Inl e" if "?P H" for H :: matrix
  proof -
    have "\<exists>e. for_each [0..<variable_dimension ?t var0] ?inner H = Inl e"
    proof (rule for_each_never_inv [where P = ?P and b = 0, OF that])
      show "0 \<in> set [0..<variable_dimension ?t var0]" using i by simp
      show "\<And>s. ?P s \<Longrightarrow> \<exists>e. ?inner 0 s = Inl e" by (rule inner)
    next
      fix i and s s' :: matrix
      assume s: "?P s" and e: "?inner i s = Inr s'"
      show "?P s'"
      proof (rule for_each_preserves [where P = ?P, OF e s])
        fix j and s s' :: matrix
        assume "?P s" and "(case part_hessian a var0 var1 i j of
                      Inl e \<Rightarrow> Inl e
                    | Inr c \<Rightarrow> add_coeff (i + ?gi var0) (j + ?gi var1) c s) = Inr s'"
        then show "?P s'" by (auto split: sum.splits dest: add_coeff_size)
      qed
    qed
    with k1(2) v1 rng [OF v1N] be show ?thesis by (simp add: dense_block_def)
  qed
  have "\<exists>e. for_each [0..<?N] (dense_block f a var0) H = Inl e"
  proof (rule for_each_never_inv [where P = ?P and b = var1, OF H])
    show "var1 \<in> set [0..<?N]" using v1N by simp
    show "\<And>s. ?P s \<Longrightarrow> \<exists>e. dense_block f a var0 var1 s = Inl e" by (rule block)
    show "\<And>i s s'. ?P s \<Longrightarrow> dense_block f a var0 i s = Inr s' \<Longrightarrow> ?P s'"
      by (rule dense_block_size)
  qed
  then obtain e where e: "for_each [0..<?N] (dense_block f a var0) H = Inl e" ..
  then have "e = OutOfRange"
    by (rule for_each_errors [where E = "\<lambda>e. e = OutOfRange", rotated]) (rule dense_block_errors)
  with e f0 c0 v0 len rng [OF v0] show ?thesis by (simp add: dense_row_def)
qed


lemma dense_hessian_rows:
  "dense_hessian f =
     for_each (concat (map (\<lambda>a. map (Pair a) [0..<number_of_variables (the_term a)]) (terms f)))
       (\<lambda>r. dense_row f (fst r) (snd r))
       \<lparr>rows = number_of_scalars f, cols = number_of_scalars f, coeff = (\<lambda>_ _. 0)\<rparr>"
proof -
  have "for_each (terms f) (dense_term f) H
          = for_each (terms f)
              (\<lambda>a. for_each [0..<number_of_variables (the_term a)] (dense_row f a)) H"
    for H
    by (rule for_each_cong) (rule dense_term_rows)
  then show ?thesis
    unfolding dense_hessian_def
    by (simp only: for_each_concat [where body = "dense_row f"
          and g = "\<lambda>a. [0..<number_of_variables (the_term a)]"])
qed

lemma dense_hessian_decided:
  assumes inside: "\<And>a. a \<in> set (terms f) \<Longrightarrow> term_inside f (number_of_scalars f) a"
    and tb: "\<exists>r\<in>set (block_rows f). refused_row f r"
  shows "dense_hessian f
           = (if blocks_inside f then Inl UnsupportedOperation else Inl OutOfRange)"
proof -
  let ?n = "number_of_scalars f"
  let ?P = "\<lambda>H :: matrix. rows H = ?n \<and> cols H = ?n"
  let ?arows = "concat (map (\<lambda>a. map (Pair a) [0..<number_of_variables (the_term a)]) (terms f))"
  let ?key = "\<lambda>r :: AddedTerm \<times> nat. (added_variables_indices (fst r), snd r)"
  let ?good = "\<lambda>r. \<not> refused_row f (?key r) \<and> row_inside f ?n (?key r)"
  let ?H0 = "\<lparr>rows = ?n, cols = ?n, coeff = (\<lambda>_ _. 0)\<rparr>"
  have rows: "block_rows f = map ?key ?arows"
    by (simp add: block_rows_def map_concat comp_def)
  have mem: "term_inside f ?n (fst r) \<and> snd r < number_of_variables (the_term (fst r))"
    if "r \<in> set ?arows" for r
    using that inside by auto
  from tb rows have "\<exists>r\<in>set ?arows. \<not> ?good r" by auto
  from split_list_first_prop [OF this] obtain pre b post
    where d: "?arows = pre @ b # post" "\<not> ?good b" "\<forall>r\<in>set pre. ?good r"
    by auto
  from d(1) have bm: "b \<in> set ?arows" and pm: "\<And>r. r \<in> set pre \<Longrightarrow> r \<in> set ?arows"
    by simp_all
  have pre: "\<exists>H'. dense_row f (fst r) (snd r) H = Inr H' \<and> ?P H'"
    if "r \<in> set pre" "?P H" for r and H :: matrix
    using mem [OF pm [OF that(1)]] d(3) that
    by (intro dense_row_ok) simp_all
  have tw: "takeWhile (\<lambda>r. \<not> refused_row f r) (block_rows f)
              = map ?key pre @ takeWhile (\<lambda>r. \<not> refused_row f r) (map ?key (b # post))"
    unfolding rows d(1) map_append
    by (rule takeWhile_append2) (use d(3) in auto)
  show ?thesis
  proof (cases "refused_row f (?key b)")
    case True
    with tw d(3) have "blocks_inside f" by (auto simp: blocks_inside_def)
    moreover have "dense_hessian f = Inl UnsupportedOperation"
      unfolding dense_hessian_rows
    proof (rule for_each_first [where P = ?P, OF _ d(1)])
      show "?P ?H0" by simp
      show "\<And>i s. i \<in> set pre \<Longrightarrow> ?P s \<Longrightarrow> \<exists>s'. dense_row f (fst i) (snd i) s = Inr s' \<and> ?P s'"
        by (rule pre)
      show "\<And>s. ?P s \<Longrightarrow> dense_row f (fst b) (snd b) s = Inl UnsupportedOperation"
        using mem [OF bm] True
        by (intro dense_row_refused [where n = "number_of_scalars f"]) simp_all
    qed
    ultimately show ?thesis by simp
  next
    case False
    with d(2) have ro: "\<not> row_inside f ?n (?key b)" by simp
    from False tw have "?key b \<in> set (takeWhile (\<lambda>r. \<not> refused_row f r) (block_rows f))"
      by simp
    with ro have "\<not> blocks_inside f" by (auto simp: blocks_inside_def)
    moreover have "dense_hessian f = Inl OutOfRange"
      unfolding dense_hessian_rows
    proof (rule for_each_first [where P = ?P, OF _ d(1)])
      show "?P ?H0" by simp
      show "\<And>i s. i \<in> set pre \<Longrightarrow> ?P s \<Longrightarrow> \<exists>s'. dense_row f (fst i) (snd i) s = Inr s' \<and> ?P s'"
        by (rule pre)
      show "\<And>s. ?P s \<Longrightarrow> dense_row f (fst b) (snd b) s = Inl OutOfRange"
        using mem [OF bm] False ro
        by (intro dense_row_outside [where n = "number_of_scalars f"]) simp_all
    qed
    ultimately show ?thesis by simp
  qed
qed

lemma row_member:
  assumes "r \<in> set (block_rows f)"
  shows "\<exists>a\<in>set (terms f). fst r = added_variables_indices a \<and>
           snd r < number_of_variables (the_term a)"
  using assms by (auto simp: block_rows_def)

lemma blocks_inside_cong:
  assumes "block_rows g = block_rows f" and "number_of_scalars g = number_of_scalars f"
    and "\<And>r. r \<in> set (block_rows f) \<Longrightarrow>
           refused_row g r = refused_row f r \<and>
           row_inside g (number_of_scalars f) r = row_inside f (number_of_scalars f) r"
  shows "blocks_inside g = blocks_inside f"
proof -
  have "takeWhile (\<lambda>r. \<not> refused_row g r) (block_rows f)
          = takeWhile (\<lambda>r. \<not> refused_row f r) (block_rows f)"
    by (rule takeWhile_cong) (simp_all add: assms(3))
  moreover have "r \<in> set (block_rows f)"
    if "r \<in> set (takeWhile (\<lambda>r. \<not> refused_row f r) (block_rows f))" for r
    using that by (rule set_takeWhileD [THEN conjunct1])
  ultimately show ?thesis
    unfolding blocks_inside_def assms(1,2) using assms(3) by auto
qed

lemma same_binding_maps:
  assumes "list_all2 same_binding ts ts'"
  shows "map the_term ts' = map the_term ts"
    and "map added_variables_indices ts' = map added_variables_indices ts"
  using assms by (induction rule: list_all2_induct) (simp_all add: same_binding_def)

lemma block_rows_maps:
  assumes "map the_term (terms g) = map the_term (terms f)"
    and "map added_variables_indices (terms g) = map added_variables_indices (terms f)"
  shows "block_rows g = block_rows f"
proof -
  have "block_rows h =
          concat (map (\<lambda>p. map (Pair (fst p)) [0..<number_of_variables (snd p)])
                    (zip (map added_variables_indices (terms h)) (map the_term (terms h))))"
    for h
    by (simp add: block_rows_def zip_map_map comp_def zip_same_conv_map)
  with assms show ?thesis by simp
qed

lemma rows_prepared:
  assumes bind: "bindings_ok f"
    and sb: "list_all2 same_binding (terms (prepared mem x f)) ts"
  shows "block_rows ((prepared mem x f)\<lparr>terms := ts\<rparr>) = block_rows f"
    and "blocks_inside ((prepared mem x f)\<lparr>terms := ts\<rparr>) = blocks_inside f"
    and "(\<exists>r\<in>set (block_rows ((prepared mem x f)\<lparr>terms := ts\<rparr>)).
            refused_row ((prepared mem x f)\<lparr>terms := ts\<rparr>) r)
         = (\<exists>r\<in>set (block_rows f). refused_row f r)"
proof -
  let ?g = "(prepared mem x f)\<lparr>terms := ts\<rparr>"
  from same_binding_maps [OF sb]
  have m: "map the_term (terms ?g) = map the_term (terms f)"
    "map added_variables_indices (terms ?g) = map added_variables_indices (terms f)"
    by simp_all
  then show rows: "block_rows ?g = block_rows f" by (rule block_rows_maps)
  have eq: "refused_row ?g r = refused_row f r \<and>
            row_inside ?g (number_of_scalars f) r = row_inside f (number_of_scalars f) r"
    if "r \<in> set (block_rows f)" for r
  proof -
    from row_member [OF that] obtain a where a: "a \<in> set (terms f)"
      "fst r = added_variables_indices a" "snd r < number_of_variables (the_term a)" by blast
    from bind a(1) have len: "length (added_variables_indices a) = number_of_variables (the_term a)"
      and rng: "\<forall>k\<in>set (added_variables_indices a). k < length (variables f)"
      by (auto simp: bindings_ok_def)
    from a(3) len rng have k: "added_variables_indices a ! snd r < length (variables f)" by simp
    from k rng a(2) show ?thesis by (simp add: refused_row_def row_inside_def)
  qed
  show "blocks_inside ?g = blocks_inside f"
    by (rule blocks_inside_cong [OF rows]) (simp_all add: eq)
  show "(\<exists>r\<in>set (block_rows ?g). refused_row ?g r) = (\<exists>r\<in>set (block_rows f). refused_row f r)"
    unfolding rows using eq by auto
qed

lemma transform_bound_row:
  assumes "bindings_ok f" and "transform_bound f"
  shows "\<exists>r\<in>set (block_rows f). refused_row f r"
proof -
  from assms(2) obtain a k where a: "a \<in> set (terms f)" "k \<in> set (added_variables_indices a)"
    "\<not> is_constant (variables f ! k)" "change_of_variables (variables f ! k) \<noteq> None"
    by (auto simp: transform_bound_def)
  from a(2) obtain var where var: "var < length (added_variables_indices a)"
    "added_variables_indices a ! var = k" by (auto simp: in_set_conv_nth)
  from assms(1) a(1) have "length (added_variables_indices a) = number_of_variables (the_term a)"
    by (simp add: bindings_ok_def)
  with var(1) a(1) have "(added_variables_indices a, var) \<in> set (block_rows f)"
    by (auto simp: block_rows_def intro!: bexI [of _ a])
  moreover from a(3,4) var(2) have "refused_row f (added_variables_indices a, var)"
    by (simp add: refused_row_def)
  ultimately show ?thesis by blast
qed

lemma term_inside_terms [simp]: "term_inside (f\<lparr>terms := ts\<rparr>) n a = term_inside f n a"
  by (simp add: term_inside_def cong: option.case_cong)

lemma offending_terms [simp]: "offending (f\<lparr>terms := ts\<rparr>) a = offending f a"
  by (simp add: offending_def)

lemma allocated_origin_fwd:
  assumes "a0 \<in> set (terms f)"
  shows "\<exists>a\<in>set (terms (allocated f)).
           the_term a = the_term a0 \<and> added_variables_indices a = added_variables_indices a0"
proof (cases "local_storage_allocated f")
  case True
  with assms show ?thesis by (auto simp: allocated_def)
next
  case False
  let ?g = "\<lambda>a. a\<lparr>temp_variables := temp_variables a @ added_variables_indices a,
                  hessian_blocks := (if hessian_is_enabled f then block_grid (the_term a)
                                     else hessian_blocks a)\<rparr>"
  from assms False have "?g a0 \<in> set (terms (allocated f))" by (simp add: allocated_def)
  moreover have "the_term (?g a0) = the_term a0 \<and>
      added_variables_indices (?g a0) = added_variables_indices a0" by simp
  ultimately show ?thesis by blast
qed

lemma term_inside_prepared:
  assumes lay: "layout_ok f" and bind: "bindings_ok f" and dims: "dimensions_ok f"
    and en: "hessian_is_enabled f" and blk: "blocks_ok f"
    and a: "a \<in> set (terms (allocated f))" and sb: "same_binding a a'"
  shows "term_inside (prepared mem x f) (number_of_scalars f) a'"
  unfolding term_inside_def
proof (intro conjI allI impI)
  from allocated_origin [OF a] obtain a0
    where a0: "a0 \<in> set (terms f)" "the_term a = the_term a0"
      "added_variables_indices a = added_variables_indices a0" by blast
  have eq: "the_term a' = the_term a0" "added_variables_indices a' = added_variables_indices a0"
    using sb a0(2,3) by (simp_all add: same_binding_def)
  from bind a0 have len: "length (added_variables_indices a0) = number_of_variables (the_term a0)"
    and rng: "\<forall>k\<in>set (added_variables_indices a0). k < length (variables f)"
    by (auto simp: bindings_ok_def)
  show "length (added_variables_indices a') = number_of_variables (the_term a')"
    using len eq by simp
  show "grid_covers (hessian_blocks a') (the_term a')"
    by (rule same_binding_grid [OF sb allocated_blocks [OF en blk a]])
  fix var assume "var < number_of_variables (the_term a')"
  then have v: "var < length (added_variables_indices a0)" using len eq by simp
  with rng have k: "added_variables_indices a0 ! var < length (variables f)" by simp
  show "added_variables_indices a' ! var < length (variables (prepared mem x f))"
    using k eq by simp
  from dims a0 v have "variable_dimension (the_term a0) var
      = user_dimension (variables f ! (added_variables_indices a0 ! var))"
    by (simp add: dimensions_ok_def)
  then show "variable_dimension (the_term a') var
      = user_dimension (variables (prepared mem x f) ! (added_variables_indices a' ! var))"
    using k eq by simp
  assume "\<not> is_constant (variables (prepared mem x f) ! (added_variables_indices a' ! var))"
  then have nc: "\<not> is_constant (variables f ! (added_variables_indices a0 ! var))"
    using k eq by simp
  from k have "variables f ! (added_variables_indices a0 ! var) \<in> set (variables f)" by simp
  with lay nc
  have "case change_of_variables (variables f ! (added_variables_indices a0 ! var)) of
          None \<Rightarrow> global_index (variables f ! (added_variables_indices a0 ! var))
                    + user_dimension (variables f ! (added_variables_indices a0 ! var))
                    \<le> number_of_scalars f
        | Some c \<Rightarrow> global_index (variables f ! (added_variables_indices a0 ! var))
                    < number_of_scalars f"
    by (simp add: layout_ok_def)
  then show "case change_of_variables
                 (variables (prepared mem x f) ! (added_variables_indices a' ! var)) of
          None \<Rightarrow> global_index (variables (prepared mem x f) ! (added_variables_indices a' ! var))
                    + user_dimension
                        (variables (prepared mem x f) ! (added_variables_indices a' ! var))
                    \<le> number_of_scalars f
        | Some c \<Rightarrow> global_index
                      (variables (prepared mem x f) ! (added_variables_indices a' ! var))
                    < number_of_scalars f"
    using k eq by (simp split: option.splits)
qed

lemma offending_prepared:
  assumes bind: "bindings_ok f" and a0: "a0 \<in> set (terms f)"
    and eq: "added_variables_indices a' = added_variables_indices a0"
    and off: "offending f a0"
  shows "offending (prepared mem x f) a'"
proof -
  from bind a0 have rng: "\<forall>k\<in>set (added_variables_indices a0). k < length (variables f)"
    by (auto simp: bindings_ok_def)
  from off obtain var where var: "var < length (added_variables_indices a0)"
    "\<not> is_constant (variables f ! (added_variables_indices a0 ! var))"
    "change_of_variables (variables f ! (added_variables_indices a0 ! var)) \<noteq> None"
    by (auto simp: offending_def)
  from var(1) rng have k: "added_variables_indices a0 ! var < length (variables f)" by simp
  show ?thesis unfolding offending_def eq
    using var k by (intro exI [of _ var]) simp
qed

lemma transform_refused_aux:
  assumes lay: "layout_ok f" and bind: "bindings_ok f" and dims: "dimensions_ok f"
    and blk: "blocks_ok f"
    and en: "hessian_is_enabled f" and lx: "length x = number_of_scalars f"
    and tb: "transform_bound f"
  shows "evaluate_sparse f mem x = Inl UnsupportedOperation"
    and "evaluate_dense f mem x True
           = (if blocks_inside f then Inl UnsupportedOperation else Inl OutOfRange)"
proof -
  let ?f2 = "prepared mem x f"
  let ?n = "number_of_scalars f"
  let ?m = "?n + number_of_constants f"
  note prep = prepared_ok [OF lay bind lx]
  from tb obtain a0 k where a0: "a0 \<in> set (terms f)" and k: "k \<in> set (added_variables_indices a0)"
    "\<not> is_constant (variables f ! k)" "change_of_variables (variables f ! k) \<noteq> None"
    by (auto simp: transform_bound_def)
  from k(1) obtain var where "var < length (added_variables_indices a0)"
    "added_variables_indices a0 ! var = k" by (auto simp: in_set_conv_nth)
  with k have off0: "offending f a0" by (auto simp: offending_def)
  from allocated_origin_fwd [OF a0] obtain b
    where b: "b \<in> set (terms ?f2)" "the_term b = the_term a0"
      "added_variables_indices b = added_variables_indices a0" by auto
  have args: "\<exists>as. arguments_of ?f2 a = Inr as" if a: "a \<in> set (terms ?f2)" for a
  proof -
    from a have a1: "a \<in> set (terms (allocated f))" by simp
    note p = allocated_pointers [OF bind a1]
    have "arguments_of ?f2 a =
           Inr (map (\<lambda>p. temp_space (variables ?f2 ! p)) (added_variables_indices a))"
      by (rule arguments_of_ok) (use p in simp_all)
    then show ?thesis ..
  qed
  have refl: "same_binding a a" for a by (simp add: same_binding_def)
  have inside: "term_inside ?f2 ?n a" if a: "a \<in> set (terms ?f2)" for a
  proof -
    from a have a1: "a \<in> set (terms (allocated f))" by simp
    then show ?thesis by (rule term_inside_prepared [OF lay bind dims en blk _ refl])
  qed
  have st0: "length (map (\<lambda>_. 0 :: real) (thread_gradient_storage ?f2)) = ?m"
    by (simp add: allocated_storage [OF dims])
  have "update_each (evaluate_term True (add_gradient_sparse ?f2) ?f2) (terms ?f2)
          (the_constant ?f2, map (\<lambda>_. 0) (thread_gradient_storage ?f2))
          = Inl UnsupportedOperation"
    by (rule evaluate_terms_sparse_refused [OF args inside b(1)
          offending_prepared [OF bind a0 b(3) off0]])
       (simp_all add: allocated_storage [OF dims])
  with en prep show "evaluate_sparse f mem x = Inl UnsupportedOperation"
    by (simp add: evaluate_sparse_def)
  have "\<exists>ts' s'. update_each (evaluate_term True (add_gradient x ?f2) ?f2) (terms ?f2)
                    (the_constant ?f2, map (\<lambda>_. 0) (thread_gradient_storage ?f2))
                    = Inr (ts', s') \<and>
           list_all2 same_binding (terms ?f2) ts' \<and> length (snd s') = ?m"
    by (rule evaluate_terms_dense_ok [OF args inside st0]) (simp_all add: lx)
  then obtain ts v st
    where loop: "update_each (evaluate_term True (add_gradient x ?f2) ?f2) (terms ?f2)
                    (the_constant ?f2, map (\<lambda>_. 0) (thread_gradient_storage ?f2))
                   = Inr (ts, v, st)"
      and sb: "list_all2 same_binding (terms ?f2) ts"
      and lst: "length st = ?m"
    by auto
  let ?f3 = "?f2\<lparr>terms := ts\<rparr>"
  note rows = rows_prepared [OF bind sb]
  have "dense_hessian ?f3
          = (if blocks_inside ?f3 then Inl UnsupportedOperation else Inl OutOfRange)"
  proof (rule dense_hessian_decided)
    show "\<exists>r\<in>set (block_rows ?f3). refused_row ?f3 r"
      unfolding rows(3) by (rule transform_bound_row [OF bind tb])
  next
    fix a' assume "a' \<in> set (terms ?f3)"
    then have "a' \<in> set ts" by simp
    from list_all2_same_binding [OF sb this] obtain a
      where a: "a \<in> set (terms (allocated f))" "same_binding a a'" by auto
    have "term_inside ?f2 ?n a'"
      by (rule term_inside_prepared [OF lay bind dims en blk a])
    then show "term_inside ?f3 (number_of_scalars ?f3) a'" by simp
  qed
  then have "dense_hessian ?f3
          = (if blocks_inside f then Inl UnsupportedOperation else Inl OutOfRange)"
    unfolding rows(2) .
  with en prep loop lst
  show "evaluate_dense f mem x True
          = (if blocks_inside f then Inl UnsupportedOperation else Inl OutOfRange)"
    by (simp add: evaluate_dense_def)
qed

text \<open>
  When a block that the dense call adds before it refuses a row leaves the matrix, the call
  fails there.
\<close>

lemma transform_dense_outside:
  assumes "layout_ok f" and "bindings_ok f" and "dimensions_ok f" and "blocks_ok f"
    and "hessian_is_enabled f" and "length x = number_of_scalars f"
    and "transform_bound f" and "\<not> blocks_inside f"
  shows "evaluate_dense f mem x True = Inl OutOfRange"
  using transform_refused_aux(2) [OF assms(1-7)] assms(8) by simp



lemma doubling_eval:
  "x_dimension doubling = 2" "t_dimension doubling = 2"
  by (simp_all add: doubling_def)

lemma transformed_eval:
  "variables transformed =
    [\<lparr>user_dimension = 2, solver_dimension = 2, user_data = 10,
      global_index = 0, is_constant = False, change_of_variables = Some doubling,
      temp_space = [0, 0]\<rparr>]"
  "terms transformed =
    [\<lparr>the_term = squares, added_variables_indices = [0],
      temp_variables = [], hessian_blocks = [], hessian = (\<lambda>_ _ _ _. 0)\<rparr>]"
  "number_of_scalars transformed = 2" "number_of_constants transformed = 0"
  "the_constant transformed = 0" "\<not> local_storage_allocated transformed"
  "hessian_is_enabled transformed" "variables_map transformed 10 = Some 0"
  by (simp_all add: transformed_def registry_defs binding_defs doubling_eval
        squares_eval upt_rec numeral_2_eq_2)

lemma folding_eval:
  "x_dimension folding = 2" "t_dimension folding = 1"
  by (simp_all add: folding_def)

lemma folded_eval:
  "variables folded =
    [\<lparr>user_dimension = 2, solver_dimension = 1, user_data = 10,
      global_index = 0, is_constant = False, change_of_variables = Some folding,
      temp_space = [0, 0]\<rparr>]"
  "terms folded =
    [\<lparr>the_term = squares, added_variables_indices = [0],
      temp_variables = [], hessian_blocks = [], hessian = (\<lambda>_ _ _ _. 0)\<rparr>]"
  "number_of_scalars folded = 1" "number_of_constants folded = 0"
  "the_constant folded = 0" "\<not> local_storage_allocated folded"
  "hessian_is_enabled folded"
  by (simp_all add: folded_def registry_defs binding_defs folding_eval
        squares_eval upt_rec numeral_2_eq_2)

lemma folded_ok:
  "layout_ok folded" "bindings_ok folded" "dimensions_ok folded" "blocks_ok folded"
  "transform_bound folded" "blocks_inside folded"
  by (simp_all add: layout_ok_def bindings_ok_def dimensions_ok_def blocks_ok_def
        transform_bound_def blocks_inside_def block_rows_def refused_row_def row_inside_def
        folded_eval squares_eval upt_rec)

lemma plain_and_folded_eval:
  "variables plain_and_folded =
    [\<lparr>user_dimension = 2, solver_dimension = 2, user_data = 10,
      global_index = 0, is_constant = False, change_of_variables = None,
      temp_space = [0, 0]\<rparr>,
     \<lparr>user_dimension = 2, solver_dimension = 1, user_data = 20,
      global_index = 2, is_constant = False, change_of_variables = Some folding,
      temp_space = [0, 0]\<rparr>]"
  "terms plain_and_folded =
    [\<lparr>the_term = product, added_variables_indices = [0, 1],
      temp_variables = [], hessian_blocks = [], hessian = (\<lambda>_ _ _ _. 0)\<rparr>]"
  "number_of_scalars plain_and_folded = 3" "number_of_constants plain_and_folded = 0"
  "the_constant plain_and_folded = 0" "\<not> local_storage_allocated plain_and_folded"
  "hessian_is_enabled plain_and_folded"
  by (simp_all add: plain_and_folded_def registry_defs binding_defs folding_eval
        product_eval upt_rec numeral_2_eq_2)

text \<open>
  Without \<open>blocks_inside\<close> the dense call leaves the matrix before it reaches the check: the
  block of a variable without transform and a variable with the transform \<open>folding\<close> has
  two columns from column 2 on, in a matrix of three columns.
\<close>

lemma plain_and_folded_outside:
  "layout_ok plain_and_folded \<and> bindings_ok plain_and_folded \<and> dimensions_ok plain_and_folded \<and>
   blocks_ok plain_and_folded \<and> transform_bound plain_and_folded \<and>
   \<not> blocks_inside plain_and_folded \<and>
   evaluate_sparse plain_and_folded mem [1, 2, 3] = Inl UnsupportedOperation \<and>
   evaluate_dense plain_and_folded mem [1, 2, 3] True = Inl OutOfRange"
  by (simp add: layout_ok_def bindings_ok_def dimensions_ok_def blocks_ok_def
        transform_bound_def blocks_inside_def block_rows_def refused_row_def row_inside_def
        plain_and_folded_eval product_eval
        evaluation_defs folding_def overwrite_def upt_rec replicate_two eval_nat_numeral
        less_Suc_eq)

lemma folded_first_eval:
  "variables folded_first =
    [\<lparr>user_dimension = 2, solver_dimension = 2, user_data = 10,
      global_index = 0, is_constant = False, change_of_variables = None,
      temp_space = [0, 0]\<rparr>,
     \<lparr>user_dimension = 2, solver_dimension = 1, user_data = 20,
      global_index = 2, is_constant = False, change_of_variables = Some folding,
      temp_space = [0, 0]\<rparr>]"
  "terms folded_first =
    [\<lparr>the_term = squares, added_variables_indices = [1],
      temp_variables = [], hessian_blocks = [], hessian = (\<lambda>_ _ _ _. 0)\<rparr>,
     \<lparr>the_term = product, added_variables_indices = [0, 1],
      temp_variables = [], hessian_blocks = [], hessian = (\<lambda>_ _ _ _. 0)\<rparr>]"
  "number_of_scalars folded_first = 3" "number_of_constants folded_first = 0"
  "the_constant folded_first = 0" "\<not> local_storage_allocated folded_first"
  "hessian_is_enabled folded_first"
  by (simp_all add: folded_first_def registry_defs binding_defs folding_eval
        product_eval squares_eval upt_rec numeral_2_eq_2)

lemma folded_first_ok:
  "layout_ok folded_first" "bindings_ok folded_first" "dimensions_ok folded_first"
  "blocks_ok folded_first" "transform_bound folded_first" "blocks_inside folded_first"
  by (simp_all add: layout_ok_def bindings_ok_def dimensions_ok_def blocks_ok_def
        transform_bound_def blocks_inside_def block_rows_def refused_row_def row_inside_def
        folded_first_eval squares_eval product_eval upt_rec less_Suc_eq numeral_2_eq_2)

text \<open>
  Claim C8, amended. Let the registry be well formed, with the Hessian enabled and the Hessian
  blocks of an allocated local storage in place, and let some term be bound to a variable
  that has a transform and is not constant. Then the call with a sparse Hessian fails with
  \<open>UnsupportedOperation\<close>, and so does the call with a dense Hessian when the blocks it adds
  before it refuses a row lie inside the matrix.
\<close>

theorem transform_refused:
  assumes "layout_ok f" and "bindings_ok f" and "dimensions_ok f" and "blocks_ok f"
    and "hessian_is_enabled f" and "length x = number_of_scalars f"
    and "transform_bound f"
  shows "evaluate_sparse f mem x = Inl UnsupportedOperation \<and>
         (blocks_inside f \<longrightarrow> evaluate_dense f mem x True = Inl UnsupportedOperation)"
  using transform_refused_aux [OF assms] by simp

theorem transform_refused_witness:
  "layout_ok folded \<and> bindings_ok folded \<and> dimensions_ok folded \<and> blocks_ok folded \<and>
   hessian_is_enabled folded \<and> length [3 :: real] = number_of_scalars folded \<and>
   transform_bound folded \<and> blocks_inside folded \<and>
   evaluate_sparse folded three_four [3] = Inl UnsupportedOperation \<and>
   evaluate_dense folded three_four [3] True = Inl UnsupportedOperation \<and>
   layout_ok folded_first \<and> bindings_ok folded_first \<and> dimensions_ok folded_first \<and>
   blocks_ok folded_first \<and> hessian_is_enabled folded_first \<and>
   length [1, 2, 3 :: real] = number_of_scalars folded_first \<and>
   transform_bound folded_first \<and> blocks_inside folded_first \<and>
   evaluate_sparse folded_first three_four [1, 2, 3] = Inl UnsupportedOperation \<and>
   evaluate_dense folded_first three_four [1, 2, 3] True = Inl UnsupportedOperation"
proof -
  have l: "length [3 :: real] = number_of_scalars folded"
    and e: "hessian_is_enabled folded"
    by (simp_all add: folded_eval)
  have l': "length [1, 2, 3 :: real] = number_of_scalars folded_first"
    and e': "hessian_is_enabled folded_first"
    by (simp_all add: folded_first_eval)
  from transform_refused [OF folded_ok(1-4) e l folded_ok(5), of three_four]
    transform_refused [OF folded_first_ok(1-4) e' l' folded_first_ok(5), of three_four]
    folded_ok e l folded_first_ok e' l'
  show ?thesis by blast
qed

lemma transformed_constant_eval:
  "variables transformed_constant =
    [\<lparr>user_dimension = 2, solver_dimension = 2, user_data = 10,
      global_index = 0, is_constant = True, change_of_variables = Some doubling,
      temp_space = [0, 0]\<rparr>]"
  "terms transformed_constant =
    [\<lparr>the_term = squares, added_variables_indices = [0],
      temp_variables = [], hessian_blocks = [], hessian = (\<lambda>_ _ _ _. 0)\<rparr>]"
  "number_of_scalars transformed_constant = 0" "number_of_constants transformed_constant = 2"
  "the_constant transformed_constant = 0" "\<not> local_storage_allocated transformed_constant"
  "hessian_is_enabled transformed_constant"
  by (simp_all add: transformed_constant_def transformed_eval set_constant_def)

text \<open>
  Claim C8 as stated fails when the variable with the transform is constant: the checks for a
  transform stand behind the test \<^verbatim>\<open>! is_constant\<close>, so both calls return, here with the
  value 25, an empty gradient and an empty Hessian.
\<close>

theorem transform_constant_counterexample:
  "change_of_variables (variables transformed_constant ! 0) = Some doubling \<and>
   map added_variables_indices (terms transformed_constant) = [[0]] \<and>
   evaluate_sparse transformed_constant three_four [] = Inr (25, [], []) \<and>
   map_sum id (\<lambda>(v, g, H). (v, g, map_option entries H))
     (evaluate_dense transformed_constant three_four [] True) = Inr (25, [], Some [])"
  by (simp add: evaluation_defs transformed_constant_eval squares_eval three_four_def upt_rec
        replicate_two)

subsection \<open>Interval evaluation\<close>

lemma for_each_Inr_body:
  "for_each xs body s = Inr s' \<Longrightarrow> i \<in> set xs \<Longrightarrow> \<exists>s1 s2. body i s1 = Inr s2"
proof (induction xs arbitrary: s)
  case Nil
  then show ?case by simp
next
  case (Cons j xs)
  from Cons.prems(1) obtain s1 where s1: "body j s = Inr s1" "for_each xs body s1 = Inr s'"
    by (auto split: sum.splits)
  show ?case
  proof (cases "i = j")
    case True
    with s1 show ?thesis by blast
  next
    case False
    with Cons.prems(2) have "i \<in> set xs" by simp
    from Cons.IH [OF s1(2) this] show ?thesis .
  qed
qed

lemma interval_needs:
  assumes "evaluate_intervals f x = Inr r" and "a \<in> set (terms f)"
    and "k \<in> set (added_variables_indices a)"
  shows "k < length (variables f) \<and> global_index (variables f ! k) < length x"
proof -
  from for_each_Inr_body [OF assms(1) [unfolded evaluate_intervals_def] assms(2)]
  obtain v v' where "(case for_each (added_variables_indices a)
                 (\<lambda>var scratch_space.
                    if length (variables f) \<le> var then Inl OutOfRange
                    else if length x \<le> global_index (variables f ! var) then Inl OutOfRange
                    else Inr (scratch_space @ [drop (global_index (variables f ! var)) x]))
                 [] of
            Inl e \<Rightarrow> Inl e
          | Inr scratch_space \<Rightarrow>
              Inr (interval_add v (evaluate_interval (the_term a) scratch_space))) = Inr v'"
    by blast
  then obtain sc where "for_each (added_variables_indices a)
                 (\<lambda>var scratch_space.
                    if length (variables f) \<le> var then Inl OutOfRange
                    else if length x \<le> global_index (variables f ! var) then Inl OutOfRange
                    else Inr (scratch_space @ [drop (global_index (variables f ! var)) x]))
                 [] = Inr sc"
    by (auto split: sum.splits)
  from for_each_Inr_body [OF this assms(3)] show ?thesis
    by (auto split: if_splits)
qed

lemma interval_errors:
  "evaluate_intervals f x = Inl e \<Longrightarrow> e = OutOfRange"
proof -
  have inner: "for_each ks
                 (\<lambda>var scratch_space.
                    if length (variables f) \<le> var then Inl OutOfRange
                    else if length x \<le> global_index (variables f ! var) then Inl OutOfRange
                    else Inr (scratch_space @ [drop (global_index (variables f ! var)) x]))
                 sc = Inl e \<Longrightarrow> e = OutOfRange" for ks and sc :: "interval list list"
    by (induction ks arbitrary: sc) (auto split: if_splits sum.splits)
  have outer: "for_each ts
       (\<lambda>added_term v.
          case for_each (added_variables_indices added_term)
                 (\<lambda>var scratch_space.
                    if length (variables f) \<le> var then Inl OutOfRange
                    else if length x \<le> global_index (variables f ! var) then Inl OutOfRange
                    else Inr (scratch_space @ [drop (global_index (variables f ! var)) x]))
                 [] of
            Inl e \<Rightarrow> Inl e
          | Inr scratch_space \<Rightarrow>
              Inr (interval_add v (evaluate_interval (the_term added_term) scratch_space)))
       v0 = Inl e \<Longrightarrow> e = OutOfRange" for ts v0
    by (induction ts arbitrary: v0) (auto split: sum.splits dest: inner)
  show "evaluate_intervals f x = Inl e \<Longrightarrow> e = OutOfRange"
    unfolding evaluate_intervals_def by (rule outer)
qed

text \<open>
  Claim C10, amended. Interval evaluation reads \<open>x\<close> at the global index of every variable a
  term is bound to, constant or not. Right after a re-indexing by \<^verbatim>\<open>set_constant\<close> the index
  of a constant variable is the free-scalar count plus the dimensions of the constant
  variables before it. So for a function as \<^verbatim>\<open>set_constant\<close> leaves it, with a constant
  variable bound to some term, interval evaluation of a vector with one interval for each
  free scalar indexes the vector out of range, and an evaluation that returns needs a vector
  that reaches beyond the free scalars, past the index of that constant variable.
\<close>

theorem interval_out_of_range:
  assumes "set_constant variable flag f0 = (None, f)"
    and "a \<in> set (terms f)" and "k \<in> set (added_variables_indices a)"
    and "k < length (variables f)" and "is_constant (variables f ! k)"
  shows "(length x = number_of_scalars f \<longrightarrow> evaluate_intervals f x = Inl OutOfRange) \<and>
         (\<forall>r. evaluate_intervals f x = Inr r \<longrightarrow>
            number_of_scalars f + constant_scalars (take k (variables f)) < length x)"
proof -
  from set_constant_indices [OF assms(1)] assms(4,5)
  have gi: "global_index (variables f ! k)
              = number_of_scalars f + constant_scalars (take k (variables f))"
    by simp
  have b: "number_of_scalars f + constant_scalars (take k (variables f)) < length x"
    if "evaluate_intervals f x = Inr r" for r
    using interval_needs [OF that assms(2,3)] gi by simp
  have "evaluate_intervals f x = Inl OutOfRange" if "length x = number_of_scalars f"
  proof (cases "evaluate_intervals f x")
    case (Inl e)
    with interval_errors show ?thesis by blast
  next
    case (Inr r)
    from b [OF this] that show ?thesis by simp
  qed
  with b show ?thesis by blast
qed

lemma bound_constant_eval:
  "set_constant 10 True (snd (add_term first_scalar [10] new_Function)) = (None, bound_constant)"
  "map global_index (variables bound_constant) = [0]"
  "map is_constant (variables bound_constant) = [True]"
  "map added_variables_indices (terms bound_constant) = [[0]]"
  "number_of_scalars bound_constant = 0"
  by (simp_all add: bound_constant_def registry_defs binding_defs first_scalar_def upt_rec)

theorem interval_out_of_range_witness:
  "set_constant 10 True (snd (add_term first_scalar [10] new_Function)) = (None, bound_constant) \<and>
   map added_variables_indices (terms bound_constant) = [[0]] \<and>
   map is_constant (variables bound_constant) = [True] \<and>
   length ([] :: interval list) = number_of_scalars bound_constant \<and>
   evaluate_intervals bound_constant [] = Inl OutOfRange \<and>
   evaluate_intervals bound_constant [(1, 2)] = Inr (1, 2)"
proof -
  have t: "terms bound_constant ! 0 \<in> set (terms bound_constant)"
    and k: "0 \<in> set (added_variables_indices (terms bound_constant ! 0))"
      "0 < length (variables bound_constant)" "is_constant (variables bound_constant ! 0)"
    by (simp_all add: bound_constant_def registry_defs binding_defs first_scalar_def upt_rec)
  have e: "evaluate_intervals bound_constant [(1, 2)] = Inr (1, 2)"
    by (simp add: evaluate_intervals_def interval_add_def bound_constant_def registry_defs
          binding_defs first_scalar_def upt_rec)
  from interval_out_of_range [OF bound_constant_eval(1) t k, of "[]"] bound_constant_eval e
  show ?thesis by simp
qed

text \<open>
  Claim C10 as stated, for every function with a bound constant variable, fails when a
  variable was registered after the last re-indexing: the new variable takes the index
  \<open>number_of_scalars\<close>, the scalar count grows, and the index of the constant variable is no
  longer beyond it. Interval evaluation of a vector that covers only the free scalars then
  stays in range.
\<close>

theorem interval_in_range_counterexample:
  "map is_constant (variables bound_constant_then_added) = [True, False] \<and>
   map global_index (variables bound_constant_then_added) = [0, 0] \<and>
   map added_variables_indices (terms bound_constant_then_added) = [[0]] \<and>
   number_of_scalars bound_constant_then_added = 1 \<and>
   number_of_constants bound_constant_then_added = 1 \<and>
   evaluate_intervals bound_constant_then_added [(1, 2)] = Inr (1, 2)"
  by (simp add: evaluate_intervals_def interval_add_def bound_constant_then_added_def
        bound_constant_def registry_defs binding_defs first_scalar_def upt_rec)

subsection \<open>Serialization\<close>

lemmas stream_defs = write_to_stream_def variable_dimensions_def copy_user_to_global_def
  term_record_def read_from_stream_def and_then_def call_def

lemma second_bound_eval:
  "variables second_bound =
    [\<lparr>user_dimension = 2, solver_dimension = 2, user_data = 10,
      global_index = 0, is_constant = False, change_of_variables = None, temp_space = [0, 0]\<rparr>,
     \<lparr>user_dimension = 2, solver_dimension = 2, user_data = 20,
      global_index = 2, is_constant = False, change_of_variables = None, temp_space = [0, 0]\<rparr>]"
  "terms second_bound =
    [\<lparr>the_term = squares, added_variables_indices = [1],
      temp_variables = [], hessian_blocks = [], hessian = (\<lambda>_ _ _ _. 0)\<rparr>]"
  "number_of_scalars second_bound = 4" "number_of_constants second_bound = 0"
  "the_constant second_bound = 0" "\<not> local_storage_allocated second_bound"
  by (simp_all add: second_bound_def registry_defs binding_defs squares_eval upt_rec numeral_2_eq_2)

lemma squares_written: "type_name squares = ''squares''" "write_term squares = []"
  by (simp_all add: squares_def)

lemma second_bound_written:
  "write_to_stream type_format second_bound three_to_six =
     (None, [Word ''spii::function'', Count 1, Word type_format, Count 1, Count 2, Count 4,
             Scalar 0, Count 2, Count 2, Scalar 3, Scalar 4, Scalar 5, Scalar 6,
             Word ''squares'', Count 1, Count 1])"
  by (simp add: stream_defs second_bound_eval squares_written three_to_six_def upt_rec
        eval_nat_numeral)

text \<open>
  Claim C2 at a failing input. The term is bound to the second variable, whose registry index
  is 1 and whose global index is 2, since the first variable has two scalars. The record of
  the term in the stream lists 1, the entry of \<^verbatim>\<open>added_variables_indices\<close>, where the claim
  (and the reader, which takes the number as an offset into the scalars) expects 2.
\<close>

theorem write_lists_registry_index:
  "write_to_stream type_format second_bound three_to_six =
     (None, [Word ''spii::function'', Count 1, Word type_format, Count 1, Count 2, Count 4,
             Scalar 0, Count 2, Count 2, Scalar 3, Scalar 4, Scalar 5, Scalar 6]
            @ term_record (terms second_bound ! 0)) \<and>
   term_record (terms second_bound ! 0) = [Word ''squares'', Count 1, Count 1] \<and>
   added_variables_indices (terms second_bound ! 0) = [1] \<and>
   map (\<lambda>k. global_index (variables second_bound ! k))
     (added_variables_indices (terms second_bound ! 0)) = [2]"
  by (simp add: second_bound_written term_record_def second_bound_eval squares_written)

text \<open>
  Claim C4 at a failing input. The same function is written and read back with a factory
  that makes the term again. The reader takes the 1 of the term's record as the scalar
  offset 1, finds no variable at that address and registers a third one there: the function
  read back has 6 scalars and 3 variables where the original has 4 and 2, its term is bound
  at the global index 4 where the original is bound at 2, and it evaluates to 41 on the
  scalars read back where the original evaluates to 61.
\<close>

theorem round_trip_changes_function:
  "fst (write_to_stream type_format second_bound three_to_six) = None \<and>
   number_of_scalars second_bound = 4 \<and>
   map user_dimension (variables second_bound) = [2, 2] \<and>
   map (\<lambda>k. global_index (variables second_bound ! k))
     (added_variables_indices (terms second_bound ! 0)) = [2] \<and>
   evaluate_user second_bound three_to_six = Inr 61 \<and>
   map_sum id
     (\<lambda>(f, user_space).
        (number_of_scalars f, map user_dimension (variables f), map user_data (variables f),
         map (\<lambda>k. global_index (variables f ! k)) (added_variables_indices (terms f ! 0)),
         user_space, evaluate_user f (storage_of 100 user_space)))
     (read_from_stream type_format squares_factory 100
        (snd (write_to_stream type_format second_bound three_to_six)) new_Function)
   = Inr (6, [2, 2, 2], [100, 102, 101], [4], [3, 4, 5, 6], Inr 41)"
  by (simp add: second_bound_written second_bound_eval stream_defs registry_defs binding_defs
        evaluate_user_def copy_user_to_local_def evaluation_defs squares_eval squares_written
        squares_factory_def storage_of_def three_to_six_def upt_rec eval_nat_numeral)

subsection \<open>The interface keeps the registry well formed\<close>





lemma add_variable_new:
  assumes "variables_map f p = None"
  shows "add_variable p d f =
    (None, f\<lparr>local_storage_allocated := False,
             variables := variables f @
               [\<lparr>user_dimension = d, solver_dimension = d, user_data = p,
                 global_index = number_of_scalars f, is_constant = False,
                 change_of_variables = None, temp_space = replicate d 0\<rparr>],
             variables_map := (variables_map f)(p \<mapsto> length (variables f)),
             number_of_scalars := number_of_scalars f + d\<rparr>)"
  using assms by (simp add: add_variable_def add_variable_internal_def register_new_def emplaced_def)


lemma variables_ok_flag [simp]:
  "variables_ok (f\<lparr>local_storage_allocated := b\<rparr>) = variables_ok f"
  by (simp add: variables_ok_def layout_ok_def no_transform_def cong: option.case_cong)

lemma variables_ok_terms [simp]:
  "variables_ok (f\<lparr>terms := ts\<rparr>) = variables_ok f"
  by (simp add: variables_ok_def layout_ok_def no_transform_def cong: option.case_cong)
















lemma push_index_flags [simp]:
  "local_storage_allocated (push_index k f) = local_storage_allocated f"
  "hessian_is_enabled (push_index k f) = hessian_is_enabled f"
  by (simp_all add: push_index_def)






lemma enabled_late_eval:
  "variables enabled_late = [\<lparr>user_dimension = 2, solver_dimension = 2, user_data = 10,
     global_index = 0, is_constant = False, change_of_variables = None, temp_space = [3, 4]\<rparr>]"
  "terms enabled_late = [\<lparr>the_term = squares, added_variables_indices = [0],
     temp_variables = [0], hessian_blocks = [], hessian = (\<lambda>_ _ _ _. 0)\<rparr>]"
  "number_of_scalars enabled_late = 2" "number_of_constants enabled_late = 0"
  "the_constant enabled_late = 0" "local_storage_allocated enabled_late"
  "thread_gradient_storage enabled_late = [0, 0]"
  "hessian_is_enabled enabled_late"
  by (simp_all add: enabled_late_def prepared_def allocated_def scattered_def one_variable_eval
        upt_rec replicate_two)

text \<open>
  Without \<open>blocks_ok\<close> the calls that ask for a Hessian leave the grid of blocks: a local
  storage that was allocated while the Hessian was disabled holds no block, and it is not
  allocated again when the Hessian is enabled.
\<close>

lemma enabled_late_outside:
  "layout_ok enabled_late \<and> bindings_ok enabled_late \<and> dimensions_ok enabled_late \<and>
   no_transform enabled_late \<and> hessian_is_enabled enabled_late \<and> \<not> blocks_ok enabled_late \<and>
   evaluate enabled_late mem [3, 4] = Inr 25 \<and>
   evaluate_dense enabled_late mem [3, 4] True = Inl OutOfRange \<and>
   evaluate_sparse enabled_late mem [3, 4] = Inl OutOfRange"
  by (simp add: layout_ok_def bindings_ok_def dimensions_ok_def no_transform_def blocks_ok_def
        enabled_late_eval squares_eval evaluation_defs upt_rec)






subsection \<open>When the indices are those of a re-indexing\<close>

lemma free_scalars_append [simp]: "free_scalars (vs @ ws) = free_scalars vs + free_scalars ws"
  by (simp add: free_scalars_def)

text \<open>
  The hypothesis of the amended claim C7 holds after a call of \<^verbatim>\<open>set_constant\<close>, and it is
  kept by the registration of a new variable as long as no variable is constant.
\<close>

lemma set_constant_assigns:
  assumes "set_constant variable flag f = (None, f')"
  shows "number_of_scalars f' = free_scalars (variables f') \<and>
         (\<forall>i<length (variables f').
            global_index (variables f' ! i) = assigned_index (variables f') i)"
  using set_constant_indices [OF assms] by (simp add: assigned_index_def)

lemma add_variable_assigns:
  assumes "variables_map f p = None"
    and "\<forall>v\<in>set (variables f). \<not> is_constant v"
    and "number_of_scalars f = free_scalars (variables f)"
    and "\<forall>i<length (variables f). global_index (variables f ! i) = assigned_index (variables f) i"
  shows "number_of_scalars (snd (add_variable p d f))
           = free_scalars (variables (snd (add_variable p d f))) \<and>
         (\<forall>v\<in>set (variables (snd (add_variable p d f))). \<not> is_constant v) \<and>
         (\<forall>i<length (variables (snd (add_variable p d f))).
            global_index (variables (snd (add_variable p d f)) ! i)
              = assigned_index (variables (snd (add_variable p d f))) i)"
proof -
  let ?v = "\<lparr>user_dimension = d, solver_dimension = d, user_data = p,
                 global_index = number_of_scalars f, is_constant = False,
                 change_of_variables = None, temp_space = replicate d 0\<rparr>"
  have vs: "variables (snd (add_variable p d f)) = variables f @ [?v]"
    and n: "number_of_scalars (snd (add_variable p d f)) = number_of_scalars f + d"
    by (simp_all add: add_variable_new [OF assms(1)])
  have "global_index ((variables f @ [?v]) ! i) = assigned_index (variables f @ [?v]) i"
    if "i < Suc (length (variables f))" for i
  proof (cases "i < length (variables f)")
    case True
    then have "variables f ! i \<in> set (variables f)" by simp
    with assms(2) have nc: "\<not> is_constant (variables f ! i)" by simp
    from True assms(4) nc show ?thesis by (simp add: assigned_index_def nth_append)
  next
    case False
    with that have "i = length (variables f)" by simp
    then show ?thesis using assms(3) by (simp add: assigned_index_def)
  qed
  with assms(2,3) show ?thesis unfolding vs n by simp
qed

end
